theory Spec2Isabelle
  imports Main "HOL-Library.Sublist"
begin

section \<open>The JSON-RPC client of the forked network: data model\<close>

text \<open>
  This theory embeds \<^verbatim>\<open>JsonRpcClient\<close> (hardhat-core,
  \<^verbatim>\<open>internal/hardhat-network/jsonrpc/client.ts\<close>): the derivation of cache keys, the
  in-memory cache, the cache on disk, the rule that keeps blocks that can still be reorganised
  out of both, and the single retry of the transport.

  JavaScript values of type \<^verbatim>\<open>any\<close> (raw payloads, decoded results, parameters and what the
  in-memory \<^verbatim>\<open>Map<string, any>\<close> holds) are one datatype. \<^verbatim>\<open>undefined\<close> is a value of
  it, because the source tests for it with \<^verbatim>\<open>!== undefined\<close>. Block numbers (\<^verbatim>\<open>BN\<close>, of any
  size) and the two numbers given to the constructor are \<^typ>\<open>int\<close>. \<^verbatim>\<open>BN.toNumber\<close>, which
  the source calls before it compares, throws on a number that does not fit in 53 bits: that
  is a branch of the model.
\<close>

datatype jsval =
    Undef
  | Null
  | JBool bool
  | JNum int
  | JStr string
  | JBuf "nat list"
  | JBN int
  | JArr "jsval list"
  | JObj "(string \<times> jsval) list"

text \<open>
  A thrown value (a rejected promise). \<^verbatim>\<open>catch (err)\<close> receives \<^verbatim>\<open>any\<close>: the value is either an
  instance of \<^verbatim>\<open>Error\<close>, with its message, or some other value, whose \<^verbatim>\<open>message\<close> property
  may exist or not.
\<close>

datatype thrown =
    ErrorInstance string
  | NotErrorInstance "string option"

text \<open>
  Every call of a collaborator (the transport, the decoder, the file system) is recorded in a
  trace, so that "no transport call" and "no decode" are statements about the trace.
\<close>

datatype event =
    Request string "jsval list"
  | SendBatch "(string \<times> jsval list) list"
  | Decode jsval
  | ReadJSON string
  | EnsureDir string
  | WriteJSON string jsval

text \<open>
  The world outside the client: the trace, the JSON files on disk by path, and an oracle for
  the I/O failures of \<^verbatim>\<open>fs-extra\<close> (any operation may fail, depending on everything that
  happened before). A file that is missing needs no oracle: reading it fails.
\<close>

record world =
  trace :: "event list"
  files :: "string \<rightharpoonup> jsval"
  ioFault :: "event list \<Rightarrow> event \<Rightarrow> thrown option"

text \<open>
  \<^verbatim>\<open>HttpProvider\<close>: its address, and its two fallible operations. What it answers may depend on
  all that happened before (a stub that fails on its first call and answers on its second).
\<close>

record httpProvider =
  url :: string
  request :: "event list \<Rightarrow> string \<Rightarrow> jsval list \<Rightarrow> thrown + jsval"
  sendBatch :: "event list \<Rightarrow> (string \<times> jsval list) list \<Rightarrow> thrown + jsval list"

text \<open>
  What the module imports and does not define: the hash of \<^verbatim>\<open>util/hash\<close> (with the
  conversions to and from bytes around it), \<^verbatim>\<open>JSON.stringify\<close>, the rendering of a number in
  a template string, \<^verbatim>\<open>path.join\<close> and \<^verbatim>\<open>path.dirname\<close>, the two conversions to
  hexadecimal strings, and the decoders of \<^verbatim>\<open>./types\<close> and \<^verbatim>\<open>provider/input\<close>. They are
  parameters of the model. A decoder returns what its type says: \<^verbatim>\<open>rpcData\<close> a \<^verbatim>\<open>Buffer\<close>,
  \<^verbatim>\<open>rpcQuantity\<close> a \<^verbatim>\<open>BN\<close>, the others an object, given by its fields; or it throws.
\<close>

record env =
  createNonCryptographicHashBasedIdentifier :: "string \<Rightarrow> string"
  JSON_stringify :: "jsval \<Rightarrow> string"
  numberToString :: "int \<Rightarrow> string"
  path_join :: "string list \<Rightarrow> string"
  path_dirname :: "string \<Rightarrow> string"
  bufferToHex :: "nat list \<Rightarrow> string"
  numberToRpcQuantity :: "int \<Rightarrow> string"
  rpcData :: "jsval \<Rightarrow> thrown + nat list"
  rpcQuantity :: "jsval \<Rightarrow> thrown + int"
  rpcBlock :: "jsval \<Rightarrow> thrown + (string \<times> jsval) list"
  rpcBlockWithTransactions :: "jsval \<Rightarrow> thrown + (string \<times> jsval) list"
  rpcTransaction :: "jsval \<Rightarrow> thrown + (string \<times> jsval) list"
  rpcTransactionReceipt :: "jsval \<Rightarrow> thrown + (string \<times> jsval) list"

text \<open>The fields of the class. \<^verbatim>\<open>_scopedForkCacheFolderCreated\<close> starts undefined, here False.\<close>

record client =
  httpProvider :: httpProvider
  networkId :: int
  latestBlockNumberOnCreation :: int
  maxReorg :: int
  forkCachePath :: "string option"
  cache :: "string \<rightharpoonup> jsval"
  scopedForkCacheFolderCreated :: bool

definition newClient :: "httpProvider \<Rightarrow> int \<Rightarrow> int \<Rightarrow> int \<Rightarrow> string option \<Rightarrow> client" where
  "newClient provider nid latest depth path =
     \<lparr> httpProvider = provider, networkId = nid, latestBlockNumberOnCreation = latest,
       maxReorg = depth, forkCachePath = path, cache = Map.empty,
       scopedForkCacheFolderCreated = False \<rparr>"

text \<open>A decoder (\<^verbatim>\<open>t.Type<T>\<close> given to \<^verbatim>\<open>decode\<close>): it returns the decoded value or throws.\<close>

type_synonym tType = "jsval \<Rightarrow> thrown + jsval"

section \<open>Helpers\<close>

text \<open>\<^verbatim>\<open>String.prototype.includes\<close>: the second string occurs in the first.\<close>

fun includesStr :: "string \<Rightarrow> string \<Rightarrow> bool" where
  "includesStr [] t = (t = [])"
| "includesStr (x # xs) t = (prefix t (x # xs) \<or> includesStr xs t)"

definition logEvent :: "event \<Rightarrow> world \<Rightarrow> world" where
  "logEvent ev w = w\<lparr>trace := trace w @ [ev]\<rparr>"

definition typeError :: thrown where
  "typeError = ErrorInstance ''TypeError''"

definition enoent :: thrown where
  "enoent = ErrorInstance ''ENOENT: no such file or directory''"

text \<open>\<^verbatim>\<open>fsExtra.readJSON\<close>, \<^verbatim>\<open>fsExtra.ensureDir\<close> and \<^verbatim>\<open>fsExtra.writeJSON\<close>.\<close>

definition readJSON :: "world \<Rightarrow> string \<Rightarrow> (thrown + jsval) \<times> world" where
  "readJSON w p =
     (case ioFault w (trace w) (ReadJSON p) of
        Some e \<Rightarrow> (Inl e, logEvent (ReadJSON p) w)
      | None \<Rightarrow>
          (case files w p of
             None \<Rightarrow> (Inl enoent, logEvent (ReadJSON p) w)
           | Some v \<Rightarrow> (Inr v, logEvent (ReadJSON p) w)))"

definition ensureDir :: "world \<Rightarrow> string \<Rightarrow> (thrown + unit) \<times> world" where
  "ensureDir w d =
     (case ioFault w (trace w) (EnsureDir d) of
        Some e \<Rightarrow> (Inl e, logEvent (EnsureDir d) w)
      | None \<Rightarrow> (Inr (), logEvent (EnsureDir d) w))"

definition writeJSON :: "world \<Rightarrow> string \<Rightarrow> jsval \<Rightarrow> (thrown + unit) \<times> world" where
  "writeJSON w p v =
     (case ioFault w (trace w) (WriteJSON p v) of
        Some e \<Rightarrow> (Inl e, logEvent (WriteJSON p v) w)
      | None \<Rightarrow> (Inr (), logEvent (WriteJSON p v) (w\<lparr>files := (files w)(p \<mapsto> v)\<rparr>)))"

text \<open>\<^verbatim>\<open>decode(raw, tType)\<close> of \<^verbatim>\<open>./types\<close>: it applies the decoder; the call is recorded.\<close>

definition decode :: "world \<Rightarrow> jsval \<Rightarrow> tType \<Rightarrow> (thrown + jsval) \<times> world" where
  "decode w raw tType = (tType raw, logEvent (Decode raw) w)"

section \<open>The client\<close>

subsection \<open>Eligibility\<close>

definition canBeReorgedOut :: "client \<Rightarrow> int \<Rightarrow> bool" where
  "canBeReorgedOut c blockNumber \<longleftrightarrow>
     blockNumber > latestBlockNumberOnCreation c - maxReorg c"

text \<open>
  \<^verbatim>\<open>BN.toNumber\<close> of \<^verbatim>\<open>bn.js\<close>: the number itself when its magnitude is below \<open>2\<^sup>5\<^sup>3\<close>, and
  otherwise a failed assertion.
\<close>

definition toNumber :: "int \<Rightarrow> thrown + int" where
  "toNumber n =
     (if \<bar>n\<bar> < 2 ^ 53 then Inr n
      else Inl (ErrorInstance ''Number can only safely store up to 53 bits''))"

text \<open>
  \<^verbatim>\<open>_canBeCached\<close>: false on \<^verbatim>\<open>undefined\<close>; otherwise \<^verbatim>\<open>blockNumber.toNumber()\<close> is evaluated
  first, and its throw leaves \<^verbatim>\<open>_canBeCached\<close> without a result.
\<close>

definition canBeCached :: "client \<Rightarrow> int option \<Rightarrow> thrown + bool" where
  "canBeCached c blockNumber =
     (case blockNumber of
        None \<Rightarrow> Inr False
      | Some n \<Rightarrow>
          (case toNumber n of
             Inl e \<Rightarrow> Inl e
           | Inr number \<Rightarrow> Inr (\<not> canBeReorgedOut c number)))"

definition isCacheToDiskEnabled :: "client \<Rightarrow> bool" where
  "isCacheToDiskEnabled c \<longleftrightarrow> forkCachePath c \<noteq> None"

subsection \<open>Cache keys\<close>

text \<open>
  \<^verbatim>\<open>_getCacheKey\<close>. Its local \<^verbatim>\<open>plaintextKey\<close>, the template string that is hashed, has a name
  of its own here, so that statements can speak of what goes into the hash.
\<close>

definition plaintextKey :: "env \<Rightarrow> client \<Rightarrow> string \<Rightarrow> jsval list \<Rightarrow> string" where
  "plaintextKey E c method params =
     numberToString E (networkId c) @ '' '' @ method @ '' '' @ JSON_stringify E (JArr params)"

definition getCacheKey :: "env \<Rightarrow> client \<Rightarrow> string \<Rightarrow> jsval list \<Rightarrow> string" where
  "getCacheKey E c method params =
     createNonCryptographicHashBasedIdentifier E (plaintextKey E c method params)"

text \<open>The loop of \<^verbatim>\<open>_getBatchCacheKey\<close>, with its two accumulators.\<close>

fun batchKeyLoop :: "(string \<times> jsval list) list \<Rightarrow> string \<Rightarrow> jsval list \<Rightarrow> string \<times> jsval list" where
  "batchKeyLoop [] fakeMethod fakeParams = (fakeMethod, fakeParams)"
| "batchKeyLoop ((method, params) # rest) fakeMethod fakeParams =
     batchKeyLoop rest (fakeMethod @ method) (fakeParams @ params)"

definition getBatchCacheKey :: "env \<Rightarrow> client \<Rightarrow> (string \<times> jsval list) list \<Rightarrow> string" where
  "getBatchCacheKey E c batch =
     (case batchKeyLoop batch [] [] of
        (fakeMethod, fakeParams) \<Rightarrow> getCacheKey E c fakeMethod fakeParams)"

subsection \<open>The in-memory cache\<close>

text \<open>\<^verbatim>\<open>Map.get\<close> gives \<^verbatim>\<open>undefined\<close> for a key that is not there.\<close>

definition getFromCache :: "client \<Rightarrow> string \<Rightarrow> jsval" where
  "getFromCache c cacheKey = (case cache c cacheKey of None \<Rightarrow> Undef | Some v \<Rightarrow> v)"

definition storeInCache :: "client \<Rightarrow> string \<Rightarrow> jsval \<Rightarrow> client" where
  "storeInCache c cacheKey decodedResult = c\<lparr>cache := (cache c)(cacheKey \<mapsto> decodedResult)\<rparr>"

subsection \<open>The cache on disk\<close>

text \<open>
  \<^verbatim>\<open>path.join\<close> throws a TypeError when an argument is not a string: the \<^verbatim>\<open>!\<close> after
  \<^verbatim>\<open>this._forkCachePath\<close> only silences the type checker.
\<close>

definition getDiskCachePathForKey :: "env \<Rightarrow> client \<Rightarrow> string \<Rightarrow> thrown + string" where
  "getDiskCachePathForKey E c key =
     (case forkCachePath c of
        None \<Rightarrow> Inl typeError
      | Some dir \<Rightarrow>
          Inr (path_join E [dir, ''network-'' @ numberToString E (networkId c),
                            ''request-'' @ key @ ''.json'']))"

definition getRawFromDiskCache :: "env \<Rightarrow> client \<Rightarrow> world \<Rightarrow> string \<Rightarrow> jsval \<times> world" where
  "getRawFromDiskCache E c w cacheKey =
     (case getDiskCachePathForKey E c cacheKey of
        Inl error \<Rightarrow> (Undef, w)
      | Inr p \<Rightarrow>
          (case readJSON w p of
             (Inl error, w1) \<Rightarrow> (Undef, w1)
           | (Inr v, w1) \<Rightarrow> (v, w1)))"

definition getFromDiskCache :: "env \<Rightarrow> client \<Rightarrow> world \<Rightarrow> string \<Rightarrow> tType \<Rightarrow> (thrown + jsval) \<times> world" where
  "getFromDiskCache E c w cacheKey tType =
     (case getRawFromDiskCache E c w cacheKey of
        (rawResult, w1) \<Rightarrow>
          if rawResult \<noteq> Undef then decode w1 rawResult tType else (Inr Undef, w1))"

text \<open>
  \<^verbatim>\<open>rawResults.map((r, i) => decode(r, tTypes[i]))\<close>: the first decoder that throws ends the
  map. Beyond the end of the decoders, \<^verbatim>\<open>tTypes[i]\<close> is undefined and \<^verbatim>\<open>decode\<close> is called
  with it; in \<^verbatim>\<open>_performBatch\<close>, \<^verbatim>\<open>batch[i].tType\<close> throws before \<^verbatim>\<open>decode\<close> is called.
  The flag tells the two apart.
\<close>

fun decodeEach :: "bool \<Rightarrow> world \<Rightarrow> jsval list \<Rightarrow> tType list \<Rightarrow> (thrown + jsval list) \<times> world" where
  "decodeEach fromDisk w [] tTypes = (Inr [], w)"
| "decodeEach fromDisk w (r # rs) [] =
     (Inl typeError, if fromDisk then logEvent (Decode r) w else w)"
| "decodeEach fromDisk w (r # rs) (tType # tTypes) =
     (case decode w r tType of
        (Inl e, w1) \<Rightarrow> (Inl e, w1)
      | (Inr v, w1) \<Rightarrow>
          (case decodeEach fromDisk w1 rs tTypes of
             (Inl e, w2) \<Rightarrow> (Inl e, w2)
           | (Inr vs, w2) \<Rightarrow> (Inr (v # vs), w2)))"

definition getBatchFromDiskCache ::
    "env \<Rightarrow> client \<Rightarrow> world \<Rightarrow> string \<Rightarrow> tType list \<Rightarrow> (thrown + jsval) \<times> world" where
  "getBatchFromDiskCache E c w cacheKey tTypes =
     (case getRawFromDiskCache E c w cacheKey of
        (JArr rawResults, w1) \<Rightarrow>
          (case decodeEach True w1 rawResults tTypes of
             (Inl e, w2) \<Rightarrow> (Inl e, w2)
           | (Inr vs, w2) \<Rightarrow> (Inr (JArr vs), w2))
      | (other, w1) \<Rightarrow> (Inr Undef, w1))"

definition storeInDiskCache ::
    "env \<Rightarrow> client \<Rightarrow> world \<Rightarrow> string \<Rightarrow> jsval \<Rightarrow> (thrown + unit) \<times> client \<times> world" where
  "storeInDiskCache E c w cacheKey rawResult =
     (case getDiskCachePathForKey E c cacheKey of
        Inl e \<Rightarrow> (Inl e, c, w)
      | Inr requestPath \<Rightarrow>
          if \<not> scopedForkCacheFolderCreated c then
            (let c1 = c\<lparr>scopedForkCacheFolderCreated := True\<rparr> in
             case ensureDir w (path_dirname E requestPath) of
               (Inl e, w1) \<Rightarrow> (Inl e, c1, w1)
             | (Inr u, w1) \<Rightarrow>
                 (case writeJSON w1 requestPath rawResult of (r, w2) \<Rightarrow> (r, c1, w2)))
          else
            (case writeJSON w requestPath rawResult of (r, w2) \<Rightarrow> (r, c, w2)))"

subsection \<open>The transport, with its retry\<close>

text \<open>
  \<^verbatim>\<open>_shouldRetry\<close>, \<^verbatim>\<open>_send\<close> and \<^verbatim>\<open>_sendBatch\<close>; the last is \<open>sendBatchRetrying\<close>
  here, \<open>sendBatch\<close> being the operation of the provider. The recursion ends because a
  retry is only made by a call that is not a retry.
\<close>

definition shouldRetry :: "client \<Rightarrow> bool \<Rightarrow> thrown \<Rightarrow> bool" where
  "shouldRetry c isRetryCall err \<longleftrightarrow>
     \<not> isRetryCall \<and>
     includesStr (url (httpProvider c)) ''infura'' \<and>
     (case err of
        ErrorInstance message \<Rightarrow> includesStr message ''header not found''
      | NotErrorInstance other \<Rightarrow> False)"

function send :: "client \<Rightarrow> world \<Rightarrow> string \<Rightarrow> jsval list \<Rightarrow> bool \<Rightarrow> (thrown + jsval) \<times> world" where
  "send c w method params isRetryCall =
     (case request (httpProvider c) (trace w) method params of
        Inr v \<Rightarrow> (Inr v, logEvent (Request method params) w)
      | Inl err \<Rightarrow>
          if shouldRetry c isRetryCall err
          then send c (logEvent (Request method params) w) method params True
          else (Inl err, logEvent (Request method params) w))"
  by pat_completeness auto
termination
  by (relation "measure (\<lambda>(c, w, method, params, isRetryCall). if isRetryCall then 0 else 1)")
     (auto simp: shouldRetry_def)

declare send.simps [simp del]

function sendBatchRetrying ::
    "client \<Rightarrow> world \<Rightarrow> (string \<times> jsval list) list \<Rightarrow> bool \<Rightarrow> (thrown + jsval list) \<times> world" where
  "sendBatchRetrying c w batch isRetryCall =
     (case sendBatch (httpProvider c) (trace w) batch of
        Inr vs \<Rightarrow> (Inr vs, logEvent (SendBatch batch) w)
      | Inl err \<Rightarrow>
          if shouldRetry c isRetryCall err
          then sendBatchRetrying c (logEvent (SendBatch batch) w) batch True
          else (Inl err, logEvent (SendBatch batch) w))"
  by pat_completeness auto
termination
  by (relation "measure (\<lambda>(c, w, batch, isRetryCall). if isRetryCall then 0 else 1)")
     (auto simp: shouldRetry_def)

declare sendBatchRetrying.simps [simp del]

subsection \<open>One request\<close>

text \<open>
  The second half of \<^verbatim>\<open>_perform\<close> (from \<^verbatim>\<open>const rawResult = await this._send(...)\<close> on): ask the
  transport, decode, and store where the block number allows it.
\<close>

definition performRemote ::
    "env \<Rightarrow> client \<Rightarrow> world \<Rightarrow> string \<Rightarrow> string \<Rightarrow> jsval list \<Rightarrow> tType \<Rightarrow> (jsval \<Rightarrow> int option)
       \<Rightarrow> (thrown + jsval) \<times> client \<times> world" where
  "performRemote E c w cacheKey method params tType getMaxAffectedBlockNumber =
     (case send c w method params False of
        (Inl e, w1) \<Rightarrow> (Inl e, c, w1)
      | (Inr rawResult, w1) \<Rightarrow>
          (case decode w1 rawResult tType of
             (Inl e, w2) \<Rightarrow> (Inl e, c, w2)
           | (Inr decodedResult, w2) \<Rightarrow>
               (let blockNumber = getMaxAffectedBlockNumber decodedResult in
                case canBeCached c blockNumber of
                  Inl e \<Rightarrow> (Inl e, c, w2)
                | Inr cacheable \<Rightarrow>
                    if cacheable then
                      (let c1 = storeInCache c cacheKey decodedResult in
                       if isCacheToDiskEnabled c1 then
                         (case storeInDiskCache E c1 w2 cacheKey rawResult of
                            (Inl e, c2, w3) \<Rightarrow> (Inl e, c2, w3)
                          | (Inr u, c2, w3) \<Rightarrow> (Inr decodedResult, c2, w3))
                       else (Inr decodedResult, c1, w2))
                    else (Inr decodedResult, c, w2))))"

definition perform ::
    "env \<Rightarrow> client \<Rightarrow> world \<Rightarrow> string \<Rightarrow> jsval list \<Rightarrow> tType \<Rightarrow> (jsval \<Rightarrow> int option)
       \<Rightarrow> (thrown + jsval) \<times> client \<times> world" where
  "perform E c w method params tType getMaxAffectedBlockNumber =
     (let cacheKey = getCacheKey E c method params;
          cachedResult = getFromCache c cacheKey
      in if cachedResult \<noteq> Undef then (Inr cachedResult, c, w)
         else
           (case getFromDiskCache E c w cacheKey tType of
              (Inl e, w1) \<Rightarrow> (Inl e, c, w1)
            | (Inr diskCachedResult, w1) \<Rightarrow>
                if diskCachedResult \<noteq> Undef
                then (Inr diskCachedResult, storeInCache c cacheKey diskCachedResult, w1)
                else performRemote E c w1 cacheKey method params tType getMaxAffectedBlockNumber))"

subsection \<open>A batch\<close>

text \<open>A member of a batch: its method, its parameters and its decoder.\<close>

type_synonym batchEntry = "string \<times> jsval list \<times> tType"

definition callOf :: "batchEntry \<Rightarrow> string \<times> jsval list" where
  "callOf b = (fst b, fst (snd b))"

definition performBatchRemote ::
    "env \<Rightarrow> client \<Rightarrow> world \<Rightarrow> string \<Rightarrow> batchEntry list \<Rightarrow> (jsval list \<Rightarrow> int option)
       \<Rightarrow> (thrown + jsval) \<times> client \<times> world" where
  "performBatchRemote E c w cacheKey batch getMaxAffectedBlockNumber =
     (case sendBatchRetrying c w (map callOf batch) False of
        (Inl e, w1) \<Rightarrow> (Inl e, c, w1)
      | (Inr rawResults, w1) \<Rightarrow>
          (case decodeEach False w1 rawResults (map (\<lambda>b. snd (snd b)) batch) of
             (Inl e, w2) \<Rightarrow> (Inl e, c, w2)
           | (Inr decodedResults, w2) \<Rightarrow>
               (let blockNumber = getMaxAffectedBlockNumber decodedResults in
                case canBeCached c blockNumber of
                  Inl e \<Rightarrow> (Inl e, c, w2)
                | Inr cacheable \<Rightarrow>
                    if cacheable then
                      (let c1 = storeInCache c cacheKey (JArr decodedResults) in
                       if isCacheToDiskEnabled c1 then
                         (case storeInDiskCache E c1 w2 cacheKey (JArr rawResults) of
                            (Inl e, c2, w3) \<Rightarrow> (Inl e, c2, w3)
                          | (Inr u, c2, w3) \<Rightarrow> (Inr (JArr decodedResults), c2, w3))
                       else (Inr (JArr decodedResults), c1, w2))
                    else (Inr (JArr decodedResults), c, w2))))"

definition performBatch ::
    "env \<Rightarrow> client \<Rightarrow> world \<Rightarrow> batchEntry list \<Rightarrow> (jsval list \<Rightarrow> int option)
       \<Rightarrow> (thrown + jsval) \<times> client \<times> world" where
  "performBatch E c w batch getMaxAffectedBlockNumber =
     (let cacheKey = getBatchCacheKey E c (map callOf batch);
          cachedResult = getFromCache c cacheKey
      in if cachedResult \<noteq> Undef then (Inr cachedResult, c, w)
         else
           (case getBatchFromDiskCache E c w cacheKey (map (\<lambda>b. snd (snd b)) batch) of
              (Inl e, w1) \<Rightarrow> (Inl e, c, w1)
            | (Inr diskCachedResult, w1) \<Rightarrow>
                if diskCachedResult \<noteq> Undef
                then (Inr diskCachedResult, storeInCache c cacheKey diskCachedResult, w1)
                else performBatchRemote E c w1 cacheKey batch getMaxAffectedBlockNumber))"

subsection \<open>The public operations\<close>

text \<open>
  The operations that go through \<^verbatim>\<open>_perform\<close> with a decoder and a function that reads the
  block number off the decoded result. \<^verbatim>\<open>getLogs\<close>, one more caller of \<^verbatim>\<open>_perform\<close>, is not
  needed below. \<^verbatim>\<open>getAccountData\<close> is the only caller of \<^verbatim>\<open>_performBatch\<close>: the batch it
  builds is \<open>accountDataBatch\<close>, and the block number it gives for the batch is the one
  it was asked about, which is the block of each of the three members.
\<close>

text \<open>
  Modelled from the spec: \<^verbatim>\<open>nullable\<close> of \<^verbatim>\<open>./types\<close> is not among the sources. The
  spec says that each operation "returns an absent/null result (not an error) when the queried
  entity does not exist": the decoder of a nullable type accepts the raw \<^verbatim>\<open>null\<close> and
  yields \<^verbatim>\<open>null\<close>; any other raw value goes to the decoder of the type.
\<close>

definition nullable :: "tType \<Rightarrow> tType" where
  "nullable codec raw = (if raw = Null then Inr Null else codec raw)"

definition asBuffer :: "(jsval \<Rightarrow> thrown + nat list) \<Rightarrow> tType" where
  "asBuffer codec raw = (case codec raw of Inl e \<Rightarrow> Inl e | Inr bytes \<Rightarrow> Inr (JBuf bytes))"

definition asObject :: "(jsval \<Rightarrow> thrown + (string \<times> jsval) list) \<Rightarrow> tType" where
  "asObject codec raw = (case codec raw of Inl e \<Rightarrow> Inl e | Inr props \<Rightarrow> Inr (JObj props))"



text \<open>
  \<^verbatim>\<open>(x) => x?.field ?? undefined\<close>, where the field is a \<^verbatim>\<open>BN\<close> or \<^verbatim>\<open>null\<close> by its type:
  undefined for \<^verbatim>\<open>null\<close> and \<^verbatim>\<open>undefined\<close>, for a missing field and for a field that is
  \<^verbatim>\<open>null\<close>.
\<close>

definition optionalField :: "string \<Rightarrow> jsval \<Rightarrow> int option" where
  "optionalField field x =
     (case x of
        JObj props \<Rightarrow> (case map_of props field of Some (JBN n) \<Rightarrow> Some n | _ \<Rightarrow> None)
      | _ \<Rightarrow> None)"

definition getStorageAt ::
    "env \<Rightarrow> client \<Rightarrow> world \<Rightarrow> nat list \<Rightarrow> nat list \<Rightarrow> int \<Rightarrow> (thrown + jsval) \<times> client \<times> world" where
  "getStorageAt E c w address position blockNumber =
     perform E c w ''eth_getStorageAt''
       [JStr (bufferToHex E address), JStr (bufferToHex E position),
        JStr (numberToRpcQuantity E blockNumber)]
       (asBuffer (rpcData E))
       (\<lambda>decodedResult. Some blockNumber)"

definition getBlockByNumber ::
    "env \<Rightarrow> client \<Rightarrow> world \<Rightarrow> int \<Rightarrow> bool \<Rightarrow> (thrown + jsval) \<times> client \<times> world" where
  "getBlockByNumber E c w blockNumber includeTransactions =
     (if includeTransactions then
        perform E c w ''eth_getBlockByNumber''
          [JStr (numberToRpcQuantity E blockNumber), JBool True]
          (nullable (asObject (rpcBlockWithTransactions E)))
          (optionalField ''number'')
      else
        perform E c w ''eth_getBlockByNumber''
          [JStr (numberToRpcQuantity E blockNumber), JBool False]
          (nullable (asObject (rpcBlock E)))
          (optionalField ''number''))"

definition getBlockByHash ::
    "env \<Rightarrow> client \<Rightarrow> world \<Rightarrow> nat list \<Rightarrow> bool \<Rightarrow> (thrown + jsval) \<times> client \<times> world" where
  "getBlockByHash E c w blockHash includeTransactions =
     (if includeTransactions then
        perform E c w ''eth_getBlockByHash''
          [JStr (bufferToHex E blockHash), JBool True]
          (nullable (asObject (rpcBlockWithTransactions E)))
          (optionalField ''number'')
      else
        perform E c w ''eth_getBlockByHash''
          [JStr (bufferToHex E blockHash), JBool False]
          (nullable (asObject (rpcBlock E)))
          (optionalField ''number''))"

definition getTransactionByHash ::
    "env \<Rightarrow> client \<Rightarrow> world \<Rightarrow> nat list \<Rightarrow> (thrown + jsval) \<times> client \<times> world" where
  "getTransactionByHash E c w transactionHash =
     perform E c w ''eth_getTransactionByHash''
       [JStr (bufferToHex E transactionHash)]
       (nullable (asObject (rpcTransaction E)))
       (optionalField ''blockNumber'')"

definition getTransactionReceipt ::
    "env \<Rightarrow> client \<Rightarrow> world \<Rightarrow> nat list \<Rightarrow> (thrown + jsval) \<times> client \<times> world" where
  "getTransactionReceipt E c w transactionHash =
     perform E c w ''eth_getTransactionReceipt''
       [JStr (bufferToHex E transactionHash)]
       (nullable (asObject (rpcTransactionReceipt E)))
       (optionalField ''blockNumber'')"

section \<open>Observations\<close>

text \<open>What \<^verbatim>\<open>err instanceof Error\<close> and \<^verbatim>\<open>err.message\<close> give on a thrown value.\<close>

definition instanceOfError :: "thrown \<Rightarrow> bool" where
  "instanceOfError err =
     (case err of ErrorInstance message \<Rightarrow> True | NotErrorInstance other \<Rightarrow> False)"

definition messageProperty :: "thrown \<Rightarrow> string option" where
  "messageProperty err =
     (case err of ErrorInstance message \<Rightarrow> Some message | NotErrorInstance other \<Rightarrow> other)"

text \<open>How often the transport was called, read off the trace.\<close>

fun isTransportCall :: "event \<Rightarrow> bool" where
  "isTransportCall (Request method params) = True"
| "isTransportCall (SendBatch batch) = True"
| "isTransportCall other = False"

definition transportCalls :: "world \<Rightarrow> nat" where
  "transportCalls w = length (filter isTransportCall (trace w))"

text \<open>
  There is no entry on disk for a key: persistent caching is off, or no file has the path of
  the key.
\<close>

definition noDiskEntry :: "env \<Rightarrow> client \<Rightarrow> world \<Rightarrow> string \<Rightarrow> bool" where
  "noDiskEntry E c w cacheKey =
     (case getDiskCachePathForKey E c cacheKey of
        Inl e \<Rightarrow> True
      | Inr p \<Rightarrow> files w p = None)"

text \<open>The same operation called again and again, each call on the state the last one left.\<close>

fun callTimes ::
    "nat \<Rightarrow> (client \<Rightarrow> world \<Rightarrow> (thrown + jsval) \<times> client \<times> world) \<Rightarrow> client \<Rightarrow> world
       \<Rightarrow> client \<times> world" where
  "callTimes 0 operation c w = (c, w)"
| "callTimes (Suc n) operation c w =
     (case operation c w of (r, c1, w1) \<Rightarrow> callTimes n operation c1 w1)"

text \<open>
  The three lookups by hash, as one type, so that a statement can range over them: what each
  runs, and the method and parameters it sends.
\<close>

datatype lookup =
    BlockByHash "nat list" bool
  | TransactionByHash "nat list"
  | TransactionReceipt "nat list"

fun runLookup :: "env \<Rightarrow> lookup \<Rightarrow> client \<Rightarrow> world \<Rightarrow> (thrown + jsval) \<times> client \<times> world" where
  "runLookup E (BlockByHash blockHash includeTransactions) c w =
     getBlockByHash E c w blockHash includeTransactions"
| "runLookup E (TransactionByHash transactionHash) c w = getTransactionByHash E c w transactionHash"
| "runLookup E (TransactionReceipt transactionHash) c w = getTransactionReceipt E c w transactionHash"

fun lookupRequest :: "env \<Rightarrow> lookup \<Rightarrow> string \<times> jsval list" where
  "lookupRequest E (BlockByHash blockHash includeTransactions) =
     (''eth_getBlockByHash'', [JStr (bufferToHex E blockHash), JBool includeTransactions])"
| "lookupRequest E (TransactionByHash transactionHash) =
     (''eth_getTransactionByHash'', [JStr (bufferToHex E transactionHash)])"
| "lookupRequest E (TransactionReceipt transactionHash) =
     (''eth_getTransactionReceipt'', [JStr (bufferToHex E transactionHash)])"

section \<open>A small environment to run the model on\<close>

text \<open>
  Stand-ins for the imported functions, a world with an empty disk where no operation fails,
  and the providers of the tests: one that always answers, and one at an Infura address that
  fails on its first call.
\<close>

definition demoData :: "jsval \<Rightarrow> thrown + nat list" where
  "demoData raw =
     (case raw of JStr s \<Rightarrow> Inr (map of_char s) | _ \<Rightarrow> Inl (ErrorInstance ''Invalid value''))"

definition demoFields :: "jsval \<Rightarrow> thrown + (string \<times> jsval) list" where
  "demoFields raw =
     (case raw of JObj props \<Rightarrow> Inr props | _ \<Rightarrow> Inl (ErrorInstance ''Invalid value''))"

definition demoQuantity :: "jsval \<Rightarrow> thrown + int" where
  "demoQuantity raw =
     (case raw of JStr s \<Rightarrow> Inr (int (length s)) | _ \<Rightarrow> Inl (ErrorInstance ''Invalid value''))"

definition demoEnv :: env where
  "demoEnv =
     \<lparr> createNonCryptographicHashBasedIdentifier = (\<lambda>s. s),
       JSON_stringify = (\<lambda>v. case v of JArr vs \<Rightarrow> concat (map (\<lambda>x. case x of JStr s \<Rightarrow> s | _ \<Rightarrow> ''_'') vs) | _ \<Rightarrow> ''_''),
       numberToString = (\<lambda>n. if n = 1 then ''1'' else ''n''),
       path_join = (\<lambda>parts. concat (map (\<lambda>part. ''/'' @ part) parts)),
       path_dirname = (\<lambda>p. ''dir:'' @ p),
       bufferToHex = (\<lambda>bytes. ''0x'' @ map char_of bytes),
       numberToRpcQuantity = (\<lambda>n. if n = 120 then ''0x78'' else if n = 121 then ''0x79'' else ''0x0''),
       rpcData = demoData,
       rpcQuantity = demoQuantity,
       rpcBlock = demoFields,
       rpcBlockWithTransactions = demoFields,
       rpcTransaction = demoFields,
       rpcTransactionReceipt = demoFields \<rparr>"

definition demoWorld :: world where
  "demoWorld = \<lparr> trace = [], files = Map.empty, ioFault = (\<lambda>past ev. None) \<rparr>"

definition response1 :: jsval where
  "response1 = JStr ''0x67bafa8fb7228f04ffa792''"

definition fakeProvider :: httpProvider where
  "fakeProvider =
     \<lparr> url = ''fake'',
       request = (\<lambda>past method params. Inr response1),
       sendBatch = (\<lambda>past batch. Inr []) \<rparr>"

definition nullProvider :: httpProvider where
  "nullProvider =
     \<lparr> url = ''fake'',
       request = (\<lambda>past method params. Inr Null),
       sendBatch = (\<lambda>past batch. Inr []) \<rparr>"

definition infuraProvider :: "thrown \<Rightarrow> httpProvider" where
  "infuraProvider failure =
     \<lparr> url = ''http://infura.com'',
       request = (\<lambda>past method params. if past = [] then Inl failure else Inr response1),
       sendBatch = (\<lambda>past batch. Inr []) \<rparr>"

definition demoClient :: client where
  "demoClient = newClient fakeProvider 1 123 3 None"

definition infuraClient :: "thrown \<Rightarrow> client" where
  "infuraClient failure = newClient (infuraProvider failure) 1 123 3 None"

definition diskClient :: client where
  "diskClient = newClient fakeProvider 1 123 3 (Some ''cache'')"

definition demoKey :: string where
  "demoKey = getCacheKey demoEnv diskClient ''eth_getStorageAt'' [JStr ''0x78'']"

definition demoPath :: string where
  "demoPath =
     path_join demoEnv
       [''cache'', ''network-'' @ numberToString demoEnv 1, ''request-'' @ demoKey @ ''.json'']"

definition faultyWorld :: world where
  "faultyWorld =
     \<lparr> trace = [],
       files = [demoPath \<mapsto> JStr ''0x01''],
       ioFault = (\<lambda>past ev. case ev of ReadJSON p \<Rightarrow> Some (ErrorInstance ''EACCES'') | _ \<Rightarrow> None) \<rparr>"

definition nullClient :: client where
  "nullClient = newClient nullProvider 1 123 3 None"

definition first120 :: "(thrown + jsval) \<times> client \<times> world" where
  "first120 = getStorageAt demoEnv demoClient demoWorld [1] [2] 120"

definition twice121 :: "client \<times> world" where
  "twice121 = callTimes 2 (\<lambda>c w. getStorageAt demoEnv c w [1] [2] 121) demoClient demoWorld"

definition twiceNotFound :: "client \<times> world" where
  "twiceNotFound = callTimes 2 (runLookup demoEnv (TransactionByHash [1])) nullClient demoWorld"









section \<open>Lemmas about the parts\<close>

lemma includesStr_iff: "includesStr s t \<longleftrightarrow> (\<exists>p q. s = p @ t @ q)"
proof (induction s)
  case Nil
  then show ?case by auto
next
  case (Cons x xs)
  show ?case
  proof
    assume "includesStr (x # xs) t"
    then consider "prefix t (x # xs)" | "includesStr xs t" by auto
    then show "\<exists>p q. x # xs = p @ t @ q"
    proof cases
      case 1
      then obtain q where "x # xs = t @ q" by (auto simp: prefix_def)
      then have "x # xs = [] @ t @ q" by simp
      then show ?thesis by blast
    next
      case 2
      with Cons.IH obtain p q where "xs = p @ t @ q" by blast
      then have "x # xs = (x # p) @ t @ q" by simp
      then show ?thesis by blast
    qed
  next
    assume "\<exists>p q. x # xs = p @ t @ q"
    then obtain p q where pq: "x # xs = p @ t @ q" by blast
    show "includesStr (x # xs) t"
    proof (cases p)
      case Nil
      with pq have "prefix t (x # xs)" by (simp add: prefix_def)
      then show ?thesis by simp
    next
      case (Cons y ys)
      with pq have "xs = ys @ t @ q" by simp
      with Cons.IH have "includesStr xs t" by blast
      then show ?thesis by simp
    qed
  qed
qed

lemma trace_logEvent [simp]: "trace (logEvent ev w) = trace w @ [ev]"
  and files_logEvent [simp]: "files (logEvent ev w) = files w"
  and ioFault_logEvent [simp]: "ioFault (logEvent ev w) = ioFault w"
  by (simp_all add: logEvent_def)

lemma send_retry_call:
  "send c w method params True =
     (request (httpProvider c) (trace w) method params, logEvent (Request method params) w)"
  by (simp add: send.simps shouldRetry_def split: sum.splits)

lemma send_first_call:
  "send c w method params False =
     (case request (httpProvider c) (trace w) method params of
        Inr v \<Rightarrow> (Inr v, logEvent (Request method params) w)
      | Inl err \<Rightarrow>
          if shouldRetry c False err
          then (request (httpProvider c) (trace w @ [Request method params]) method params,
                logEvent (Request method params) (logEvent (Request method params) w))
          else (Inl err, logEvent (Request method params) w))"
  by (subst send.simps) (simp add: send_retry_call split: sum.splits)

lemma send_files: "send c w method params r = (res, w') \<Longrightarrow> files w' = files w \<and> ioFault w' = ioFault w"
  by (cases r) (auto simp: send_first_call send_retry_call split: sum.splits if_splits)


lemma transportCalls_logEvent [simp]:
  "transportCalls (logEvent ev w) = transportCalls w + (if isTransportCall ev then 1 else 0)"
  by (simp add: transportCalls_def)

lemma shouldRetry_iff:
  "shouldRetry c isRetryCall err \<longleftrightarrow>
     \<not> isRetryCall \<and> includesStr (url (httpProvider c)) ''infura'' \<and> instanceOfError err \<and>
     (\<exists>message. messageProperty err = Some message \<and> includesStr message ''header not found'')"
  by (cases err) (auto simp: shouldRetry_def instanceOfError_def messageProperty_def)

lemma readJSON_world: "readJSON w p = (r, w') \<Longrightarrow> w' = logEvent (ReadJSON p) w"
  by (auto simp: readJSON_def split: option.splits)

lemma getRawFromDiskCache_frame:
  "getRawFromDiskCache E c w cacheKey = (v, w') \<Longrightarrow>
     files w' = files w \<and> ioFault w' = ioFault w \<and> transportCalls w' = transportCalls w"
  by (auto simp: getRawFromDiskCache_def split: sum.splits prod.splits dest!: readJSON_world)

lemma getFromDiskCache_frame:
  "getFromDiskCache E c w cacheKey tType = (r, w') \<Longrightarrow>
     files w' = files w \<and> ioFault w' = ioFault w \<and> transportCalls w' = transportCalls w"
  by (auto simp: getFromDiskCache_def decode_def split: prod.splits if_splits
           dest!: getRawFromDiskCache_frame)

lemma noDiskEntry_raw:
  "noDiskEntry E c w cacheKey \<Longrightarrow> fst (getRawFromDiskCache E c w cacheKey) = Undef"
  by (auto simp: noDiskEntry_def getRawFromDiskCache_def readJSON_def
           split: sum.splits option.splits)

lemma noDiskEntry_single:
  "noDiskEntry E c w cacheKey \<Longrightarrow>
     getFromDiskCache E c w cacheKey tType = (Inr Undef, snd (getRawFromDiskCache E c w cacheKey))"
  using noDiskEntry_raw [of E c w cacheKey]
  by (cases "getRawFromDiskCache E c w cacheKey") (simp add: getFromDiskCache_def)

lemma perform_hit:
  "getFromCache c (getCacheKey E c method params) \<noteq> Undef \<Longrightarrow>
     perform E c w method params tType getMax =
       (Inr (getFromCache c (getCacheKey E c method params)), c, w)"
  by (simp add: perform_def Let_def)

lemma perform_miss:
  "getFromCache c (getCacheKey E c method params) = Undef \<Longrightarrow>
   getFromDiskCache E c w (getCacheKey E c method params) tType = (Inr Undef, w0) \<Longrightarrow>
     perform E c w method params tType getMax =
       performRemote E c w0 (getCacheKey E c method params) method params tType getMax"
  by (simp add: perform_def Let_def)

lemma send_calls:
  "send c w method params r = (res, w') \<Longrightarrow> transportCalls w < transportCalls w'"
  by (cases r) (auto simp: send_first_call send_retry_call split: sum.splits if_splits)

lemma demo_send:
  "send demoClient w method params False = (Inr response1, logEvent (Request method params) w)"
  by (simp add: send_first_call demoClient_def newClient_def fakeProvider_def)

lemma includes_hnf: "includesStr ''header not found'' ''header not found''"
  by simp

lemma ensureDir_world: "ensureDir w d = (r, w') \<Longrightarrow> w' = logEvent (EnsureDir d) w"
  by (auto simp: ensureDir_def split: option.splits)

lemma writeJSON_cases:
  "writeJSON w p v = (r, w') \<Longrightarrow>
     (r = Inr () \<and> w' = logEvent (WriteJSON p v) (w\<lparr>files := (files w)(p \<mapsto> v)\<rparr>)) \<or>
     ((\<exists>e. r = Inl e) \<and> w' = logEvent (WriteJSON p v) w)"
  by (auto simp: writeJSON_def split: option.splits)

lemma transportCalls_files_update [simp]:
  "transportCalls (w\<lparr>files := f\<rparr>) = transportCalls w"
  by (simp add: transportCalls_def)

lemma storeInDiskCache_client:
  "storeInDiskCache E c w cacheKey rawResult = (r, c', w') \<Longrightarrow>
     c' = c \<or> c' = c\<lparr>scopedForkCacheFolderCreated := True\<rparr>"
  by (auto simp: storeInDiskCache_def Let_def split: sum.splits if_splits prod.splits)

lemma storeInDiskCache_world:
  "storeInDiskCache E c w cacheKey rawResult = (r, c', w') \<Longrightarrow>
     ioFault w' = ioFault w \<and> transportCalls w' = transportCalls w \<and> prefix (trace w) (trace w')"
  by (auto simp: storeInDiskCache_def Let_def split: sum.splits if_splits prod.splits
           dest!: ensureDir_world writeJSON_cases)

lemma storeInDiskCache_files:
  "storeInDiskCache E c w cacheKey rawResult = (r, c', w') \<Longrightarrow>
   getDiskCachePathForKey E c cacheKey = Inr p \<Longrightarrow>
     files w' = (if r = Inr () then (files w)(p \<mapsto> rawResult) else files w)"
  by (auto simp: storeInDiskCache_def Let_def split: sum.splits if_splits prod.splits
           dest!: ensureDir_world writeJSON_cases)

lemma decodeEach_frame:
  "decodeEach fromDisk w rs tTypes = (r, w') \<Longrightarrow>
     files w' = files w \<and> ioFault w' = ioFault w \<and> transportCalls w' = transportCalls w"
proof (induction fromDisk w rs tTypes arbitrary: r w' rule: decodeEach.induct)
  case (1 fromDisk w tTypes)
  then show ?case by simp
next
  case (2 fromDisk w r rs)
  then show ?case by (auto split: if_splits)
next
  case (3 fromDisk w r rs tType tTypes)
  then show ?case
    by (fastforce simp: decode_def split: sum.splits prod.splits)
qed

lemma getBatchFromDiskCache_frame:
  "getBatchFromDiskCache E c w cacheKey tTypes = (r, w') \<Longrightarrow>
     files w' = files w \<and> ioFault w' = ioFault w \<and> transportCalls w' = transportCalls w"
  by (auto simp: getBatchFromDiskCache_def split: prod.splits jsval.splits sum.splits
           dest!: getRawFromDiskCache_frame decodeEach_frame)

lemma sendBatch_retry_call:
  "sendBatchRetrying c w batch True =
     (sendBatch (httpProvider c) (trace w) batch, logEvent (SendBatch batch) w)"
  by (simp add: sendBatchRetrying.simps shouldRetry_def split: sum.splits)

lemma sendBatch_first_call:
  "sendBatchRetrying c w batch False =
     (case sendBatch (httpProvider c) (trace w) batch of
        Inr vs \<Rightarrow> (Inr vs, logEvent (SendBatch batch) w)
      | Inl err \<Rightarrow>
          if shouldRetry c False err
          then (sendBatch (httpProvider c) (trace w @ [SendBatch batch]) batch,
                logEvent (SendBatch batch) (logEvent (SendBatch batch) w))
          else (Inl err, logEvent (SendBatch batch) w))"
  by (subst sendBatchRetrying.simps) (simp add: sendBatch_retry_call split: sum.splits)

lemma sendBatch_frame:
  "sendBatchRetrying c w batch r = (res, w') \<Longrightarrow>
     files w' = files w \<and> ioFault w' = ioFault w \<and> transportCalls w < transportCalls w'"
  by (cases r) (auto simp: sendBatch_first_call sendBatch_retry_call split: sum.splits if_splits)

lemma send_trace:
  "send c w method params r = (res, w') \<Longrightarrow>
     \<exists>rest. trace w' = trace w @ Request method params # rest"
  by (cases r) (auto simp: send_first_call send_retry_call split: sum.splits if_splits)

lemma performRemote_trace:
  "\<exists>rest. trace (snd (snd (performRemote E c w cacheKey method params tType getMax)))
     = trace w @ Request method params # rest"
proof -
  obtain res w1 where s: "send c w method params False = (res, w1)"
    by (cases "send c w method params False")
  from send_trace [OF s] obtain rest where t: "trace w1 = trace w @ Request method params # rest"
    by blast
  show ?thesis
  proof (cases res)
    case (Inl e)
    with s t show ?thesis by (simp add: performRemote_def)
  next
    case (Inr rawResult)
    show ?thesis
    proof (cases "tType rawResult")
      case (Inl e)
      with s t \<open>res = Inr rawResult\<close> show ?thesis by (simp add: performRemote_def decode_def)
    next
      case d: (Inr v)
      show ?thesis
      proof (cases "canBeCached c (getMax v) = Inr True \<and> isCacheToDiskEnabled (storeInCache c cacheKey v)")
        case False
        with s t d \<open>res = Inr rawResult\<close> show ?thesis
          by (auto simp: performRemote_def decode_def Let_def split: sum.splits)
      next
        case True
        obtain r c2 w3 where st: "storeInDiskCache E (storeInCache c cacheKey v)
            (logEvent (Decode rawResult) w1) cacheKey rawResult = (r, c2, w3)"
          by (cases "storeInDiskCache E (storeInCache c cacheKey v)
            (logEvent (Decode rawResult) w1) cacheKey rawResult") auto
        from storeInDiskCache_world [OF st] obtain more where
          "trace w3 = (trace w1 @ [Decode rawResult]) @ more"
          by (auto simp: prefix_def)
        with t have "trace w3 = trace w @ Request method params # (rest @ [Decode rawResult] @ more)"
          by simp
        with s d True st \<open>res = Inr rawResult\<close> show ?thesis
          by (cases r) (auto simp: performRemote_def decode_def Let_def)
      qed
    qed
  qed
qed


lemma batch_decode_failure:
  assumes "getFromCache c (getBatchCacheKey E c (map callOf batch)) = Undef"
    and "getBatchFromDiskCache E c w (getBatchCacheKey E c (map callOf batch))
           (map (\<lambda>b. snd (snd b)) batch) = (Inr Undef, w0)"
    and "sendBatchRetrying c w0 (map callOf batch) False = (Inr rawResults, w1)"
    and "decodeEach False w1 rawResults (map (\<lambda>b. snd (snd b)) batch) = (Inl e, w2)"
  shows "performBatch E c w batch getMaxAffectedBlockNumber = (Inl e, c, w2) \<and> files w2 = files w"
proof -
  from assms(2) have "files w0 = files w"
    by (auto dest: getBatchFromDiskCache_frame)
  moreover from assms(3) have "files w1 = files w0"
    by (auto dest: sendBatch_frame)
  moreover from assms(4) have "files w2 = files w1"
    by (auto dest: decodeEach_frame)
  ultimately show ?thesis
    using assms by (simp add: performBatch_def performBatchRemote_def Let_def)
qed

lemma batch_disk_read_failure:
  assumes "getFromCache c (getBatchCacheKey E c (map callOf batch)) = Undef"
    and "getDiskCachePathForKey E c (getBatchCacheKey E c (map callOf batch)) = Inr p"
    and "fst (readJSON w p) = Inl err"
  shows "performBatch E c w batch getMaxAffectedBlockNumber
           = performBatchRemote E c (logEvent (ReadJSON p) w)
               (getBatchCacheKey E c (map callOf batch)) batch getMaxAffectedBlockNumber"
proof -
  obtain w1 where r: "readJSON w p = (Inl err, w1)"
    using assms(3) by (cases "readJSON w p") auto
  then have "w1 = logEvent (ReadJSON p) w"
    by (rule readJSON_world)
  with assms(2) r
  have "getBatchFromDiskCache E c w (getBatchCacheKey E c (map callOf batch))
          (map (\<lambda>b. snd (snd b)) batch) = (Inr Undef, logEvent (ReadJSON p) w)"
    by (simp add: getBatchFromDiskCache_def getRawFromDiskCache_def)
  with assms(1) show ?thesis
    by (simp add: performBatch_def Let_def)
qed

lemma null_send:
  "send nullClient w method params False = (Inr Null, logEvent (Request method params) w)"
  by (simp add: send_first_call nullClient_def newClient_def nullProvider_def)

lemma disk_send:
  "send diskClient w method params False = (Inr response1, logEvent (Request method params) w)"
  by (simp add: send_first_call diskClient_def newClient_def fakeProvider_def)

lemma disk_path:
  "getDiskCachePathForKey demoEnv diskClient
     (getCacheKey demoEnv diskClient ''eth_getStorageAt'' [JStr ''0x78'']) = Inr demoPath"
  by (simp add: getDiskCachePathForKey_def diskClient_def newClient_def demoPath_def demoKey_def)

lemma disk_fresh:
  "getFromCache diskClient cacheKey = Undef"
  by (simp add: getFromCache_def diskClient_def newClient_def)

lemma decode_response1:
  "asBuffer demoData response1 = Inr (JBuf (map of_char ''0x67bafa8fb7228f04ffa792''))"
  by (simp add: asBuffer_def demoData_def response1_def)


lemma performRemote_rejected:
  assumes "performRemote E c w cacheKey meth ps tType getMax = (r, c', w')"
    and "\<forall>raw v. tType raw = Inr v \<longrightarrow> canBeCached c (getMax v) \<noteq> Inr True"
  shows "c' = c \<and> files w' = files w \<and> ioFault w' = ioFault w \<and> transportCalls w < transportCalls w'"
proof -
  obtain res w1 where s: "send c w meth ps False = (res, w1)"
    by (cases "send c w meth ps False")
  from send_files [OF s] send_calls [OF s]
  have f: "files w1 = files w" "ioFault w1 = ioFault w" "transportCalls w < transportCalls w1"
    by auto
  show ?thesis
  proof (cases res)
    case (Inl e)
    with assms(1) s f show ?thesis by (auto simp: performRemote_def)
  next
    case (Inr raw)
    show ?thesis
    proof (cases "tType raw")
      case (Inl e)
      with assms(1) s f \<open>res = Inr raw\<close> show ?thesis
        by (auto simp: performRemote_def decode_def)
    next
      case d: (Inr v)
      with assms(2) have "canBeCached c (getMax v) \<noteq> Inr True" by blast
      with assms(1) s f d \<open>res = Inr raw\<close> show ?thesis
        by (auto simp: performRemote_def decode_def Let_def split: sum.splits)
    qed
  qed
qed

lemma perform_rejected:
  assumes "getFromCache c (getCacheKey E c meth ps) = Undef"
    and "noDiskEntry E c w (getCacheKey E c meth ps)"
    and "\<forall>raw v. tType raw = Inr v \<longrightarrow> canBeCached c (getMax v) \<noteq> Inr True"
    and "perform E c w meth ps tType getMax = (r, c', w')"
  shows "c' = c \<and> files w' = files w \<and> ioFault w' = ioFault w \<and> transportCalls w < transportCalls w'"
proof -
  let ?key = "getCacheKey E c meth ps"
  obtain raw w0 where g: "getRawFromDiskCache E c w ?key = (raw, w0)"
    by (cases "getRawFromDiskCache E c w ?key")
  from getRawFromDiskCache_frame [OF g]
  have f: "files w0 = files w" "ioFault w0 = ioFault w" "transportCalls w0 = transportCalls w"
    by auto
  from noDiskEntry_single [OF assms(2)] g
  have "getFromDiskCache E c w ?key tType = (Inr Undef, w0)" by simp
  with assms(1,4) have "performRemote E c w0 ?key meth ps tType getMax = (r, c', w')"
    by (simp add: perform_miss)
  from performRemote_rejected [OF this assms(3)] f show ?thesis by simp
qed

lemma callTimes_rejected:
  assumes "getFromCache c (getCacheKey E c meth ps) = Undef"
    and "\<forall>raw v. tType raw = Inr v \<longrightarrow> canBeCached c (getMax v) \<noteq> Inr True"
  shows "noDiskEntry E c w (getCacheKey E c meth ps) \<Longrightarrow>
         callTimes n (\<lambda>c w. perform E c w meth ps tType getMax) c w = (cn, wn) \<Longrightarrow>
           cn = c \<and> files wn = files w \<and> transportCalls w + n \<le> transportCalls wn"
proof (induction n arbitrary: w)
  case 0
  then show ?case by simp
next
  case (Suc n)
  obtain r c1 w1 where p: "perform E c w meth ps tType getMax = (r, c1, w1)"
    by (cases "perform E c w meth ps tType getMax") auto
  from perform_rejected [OF assms(1) Suc.prems(1) assms(2) p]
  have f: "c1 = c" "files w1 = files w" "transportCalls w < transportCalls w1"
    by auto
  then have nd: "noDiskEntry E c w1 (getCacheKey E c meth ps)"
    using Suc.prems(1) by (simp add: noDiskEntry_def split: sum.splits)
  from Suc.prems(2) p f have "callTimes n (\<lambda>c w. perform E c w meth ps tType getMax) c w1 = (cn, wn)"
    by simp
  from Suc.IH [OF nd this] f show ?case by simp
qed

lemma perform_defined:
  assumes "perform E c w meth ps tType getMax = (Inr v, c1, w1)"
    and "\<forall>raw. tType raw \<noteq> Inr Undef"
  shows "v \<noteq> Undef"
  using assms
  by (auto simp: perform_def performRemote_def decode_def Let_def
      split: if_splits prod.splits sum.splits)

lemma performRemote_caches:
  assumes "performRemote E c w cacheKey meth ps tType getMax = (Inr v, c1, w1)"
    and "canBeCached c (getMax v) = Inr True"
  shows "cache c1 cacheKey = Some v \<and> networkId c1 = networkId c"
proof -
  obtain raw w0 where s: "send c w meth ps False = (Inr raw, w0)" and d: "tType raw = Inr v"
    using assms(1)
    by (auto simp: performRemote_def decode_def Let_def split: prod.splits sum.splits if_splits)
  show ?thesis
  proof (cases "isCacheToDiskEnabled (storeInCache c cacheKey v)")
    case False
    with assms s d show ?thesis
      by (auto simp: performRemote_def decode_def Let_def storeInCache_def)
  next
    case True
    obtain res c2 w3 where st: "storeInDiskCache E (storeInCache c cacheKey v)
        (logEvent (Decode raw) w0) cacheKey raw = (res, c2, w3)"
      by (cases "storeInDiskCache E (storeInCache c cacheKey v)
        (logEvent (Decode raw) w0) cacheKey raw") auto
    with assms s d True have "c1 = c2"
      by (auto simp: performRemote_def decode_def Let_def split: sum.splits)
    with storeInDiskCache_client [OF st] show ?thesis
      by (auto simp: storeInCache_def)
  qed
qed

lemma perform_caches:
  assumes "perform E c w meth ps tType getMax = (Inr v, c1, w1)"
    and "v \<noteq> Undef"
    and "canBeCached c (getMax v) = Inr True"
  shows "getFromCache c1 (getCacheKey E c1 meth ps) = v"
proof -
  let ?key = "getCacheKey E c meth ps"
  show ?thesis
  proof (cases "getFromCache c ?key \<noteq> Undef")
    case True
    with assms(1) show ?thesis by (auto simp: perform_hit)
  next
    case False
    obtain d w0 where g: "getFromDiskCache E c w ?key tType = (d, w0)"
      by (cases "getFromDiskCache E c w ?key tType")
    show ?thesis
    proof (cases d)
      case (Inl e)
      with False g assms(1) show ?thesis by (simp add: perform_def Let_def)
    next
      case (Inr disk)
      show ?thesis
      proof (cases "disk = Undef")
        case False
        with \<open>\<not> getFromCache c ?key \<noteq> Undef\<close> g Inr assms(1)
        have "c1 = storeInCache c ?key v"
          by (auto simp: perform_def Let_def)
        then show ?thesis
          by (simp add: storeInCache_def getFromCache_def getCacheKey_def plaintextKey_def)
      next
        case True
        with \<open>\<not> getFromCache c ?key \<noteq> Undef\<close> g Inr assms(1)
        have "performRemote E c w0 ?key meth ps tType getMax = (Inr v, c1, w1)"
          by (simp add: perform_miss)
        from performRemote_caches [OF this assms(3)] show ?thesis
          by (simp add: getFromCache_def getCacheKey_def plaintextKey_def)
      qed
    qed
  qed
qed

lemma asBuffer_defined: "asBuffer codec raw \<noteq> Inr Undef"
  by (simp add: asBuffer_def split: sum.splits)

lemma demo_fresh: "getFromCache demoClient cacheKey = Undef"
  by (simp add: getFromCache_def demoClient_def newClient_def)

lemma demo_no_disk: "getFromDiskCache demoEnv demoClient w cacheKey tType = (Inr Undef, w)"
  by (simp add: getFromDiskCache_def getRawFromDiskCache_def getDiskCachePathForKey_def
      demoClient_def newClient_def)

lemma demo_noDiskEntry: "noDiskEntry demoEnv demoClient w cacheKey"
  by (simp add: noDiskEntry_def getDiskCachePathForKey_def demoClient_def newClient_def)

lemma demo_121:
  "getStorageAt demoEnv demoClient w a p 121 =
     (Inr (JBuf (map of_char ''0x67bafa8fb7228f04ffa792'')), demoClient,
      logEvent (Decode response1)
        (logEvent (Request ''eth_getStorageAt''
           [JStr (bufferToHex demoEnv a), JStr (bufferToHex demoEnv p),
            JStr (numberToRpcQuantity demoEnv 121)]) w))"
proof -
  have "canBeCached demoClient (Some 121) = Inr False"
    by (simp add: canBeCached_def toNumber_def canBeReorgedOut_def demoClient_def newClient_def)
  moreover have "rpcData demoEnv = demoData"
    by (simp add: demoEnv_def)
  ultimately show ?thesis
    by (simp add: getStorageAt_def perform_miss [OF demo_fresh demo_no_disk] performRemote_def
        demo_send decode_def decode_response1)
qed

lemma demo_120:
  "first120 =
     (Inr (JBuf (map of_char ''0x67bafa8fb7228f04ffa792'')),
      storeInCache demoClient
        (getCacheKey demoEnv demoClient ''eth_getStorageAt''
           [JStr (bufferToHex demoEnv [1]), JStr (bufferToHex demoEnv [2]),
            JStr (numberToRpcQuantity demoEnv 120)])
        (JBuf (map of_char ''0x67bafa8fb7228f04ffa792'')),
      logEvent (Decode response1)
        (logEvent (Request ''eth_getStorageAt''
           [JStr (bufferToHex demoEnv [1]), JStr (bufferToHex demoEnv [2]),
            JStr (numberToRpcQuantity demoEnv 120)]) demoWorld))"
proof -
  have "canBeCached demoClient (Some 120) = Inr True"
    by (simp add: canBeCached_def toNumber_def canBeReorgedOut_def demoClient_def newClient_def)
  moreover have "rpcData demoEnv = demoData"
    by (simp add: demoEnv_def)
  moreover have "\<not> isCacheToDiskEnabled (storeInCache demoClient k v)" for k v
    by (simp add: isCacheToDiskEnabled_def storeInCache_def demoClient_def newClient_def)
  ultimately show ?thesis
    by (simp add: first120_def getStorageAt_def perform_miss [OF demo_fresh demo_no_disk]
        performRemote_def demo_send decode_def decode_response1)
qed

lemma runLookup_perform:
  "\<exists>codec field.
     runLookup E l =
       (\<lambda>c w. perform E c w (fst (lookupRequest E l)) (snd (lookupRequest E l))
         (nullable codec) (optionalField field))"
proof (cases l)
  case (BlockByHash h incl)
  have "runLookup E (BlockByHash h incl) =
       (\<lambda>c w. perform E c w ''eth_getBlockByHash'' [JStr (bufferToHex E h), JBool incl]
         (nullable (asObject (if incl then rpcBlockWithTransactions E else rpcBlock E)))
         (optionalField ''number''))"
    by (rule ext, rule ext) (simp add: getBlockByHash_def)
  with BlockByHash show ?thesis by auto
next
  case (TransactionByHash h)
  have "runLookup E (TransactionByHash h) =
       (\<lambda>c w. perform E c w ''eth_getTransactionByHash'' [JStr (bufferToHex E h)]
         (nullable (asObject (rpcTransaction E))) (optionalField ''blockNumber''))"
    by (rule ext, rule ext) (simp add: getTransactionByHash_def)
  with TransactionByHash show ?thesis by auto
next
  case (TransactionReceipt h)
  have "runLookup E (TransactionReceipt h) =
       (\<lambda>c w. perform E c w ''eth_getTransactionReceipt'' [JStr (bufferToHex E h)]
         (nullable (asObject (rpcTransactionReceipt E))) (optionalField ''blockNumber''))"
    by (rule ext, rule ext) (simp add: getTransactionReceipt_def)
  with TransactionReceipt show ?thesis by auto
qed

lemma optionalField_Null: "optionalField field Null = None"
  by (simp add: optionalField_def)

lemma perform_absent:
  assumes "getFromCache c (getCacheKey E c meth ps) = Undef"
    and "noDiskEntry E c w (getCacheKey E c meth ps)"
    and "\<forall>past. request (httpProvider c) past meth ps = Inr Null"
    and "perform E c w meth ps (nullable codec) (optionalField field) = (r, c', w')"
  shows "r = Inr Null \<and> c' = c \<and> files w' = files w \<and> transportCalls w' = transportCalls w + 1"
proof -
  let ?key = "getCacheKey E c meth ps"
  obtain raw w0 where g: "getRawFromDiskCache E c w ?key = (raw, w0)"
    by (cases "getRawFromDiskCache E c w ?key")
  from getRawFromDiskCache_frame [OF g]
  have f: "files w0 = files w" "transportCalls w0 = transportCalls w"
    by auto
  from noDiskEntry_single [OF assms(2)] g
  have "getFromDiskCache E c w ?key (nullable codec) = (Inr Undef, w0)" by simp
  with assms(1,4)
  have p: "performRemote E c w0 ?key meth ps (nullable codec) (optionalField field) = (r, c', w')"
    by (simp add: perform_miss)
  have s: "send c w0 meth ps False = (Inr Null, logEvent (Request meth ps) w0)"
    using assms(3) by (simp add: send_first_call)
  have "canBeCached c None = Inr False"
    by (simp add: canBeCached_def)
  with p s f show ?thesis
    by (auto simp: performRemote_def decode_def nullable_def optionalField_Null)
qed

lemma callTimes_absent:
  assumes "getFromCache c (getCacheKey E c meth ps) = Undef"
    and "\<forall>past. request (httpProvider c) past meth ps = Inr Null"
  shows "noDiskEntry E c w (getCacheKey E c meth ps) \<Longrightarrow>
         callTimes n (\<lambda>c w. perform E c w meth ps (nullable codec) (optionalField field)) c w = (cn, wn) \<Longrightarrow>
           cn = c \<and> files wn = files w \<and> transportCalls wn = transportCalls w + n"
proof (induction n arbitrary: w)
  case 0
  then show ?case by simp
next
  case (Suc n)
  let ?op = "\<lambda>c w. perform E c w meth ps (nullable codec) (optionalField field)"
  obtain r c1 w1 where p: "?op c w = (r, c1, w1)"
    by (cases "?op c w") auto
  from perform_absent [OF assms(1) Suc.prems(1) assms(2) p]
  have f: "c1 = c" "files w1 = files w" "transportCalls w1 = transportCalls w + 1"
    by auto
  then have nd: "noDiskEntry E c w1 (getCacheKey E c meth ps)"
    using Suc.prems(1) by (simp add: noDiskEntry_def split: sum.splits)
  from Suc.prems(2) p f have "callTimes n ?op c w1 = (cn, wn)"
    by simp
  from Suc.IH [OF nd this] f show ?case by simp
qed

lemma null_fresh: "getFromCache nullClient cacheKey = Undef"
  by (simp add: getFromCache_def nullClient_def newClient_def)

lemma null_noDiskEntry: "noDiskEntry demoEnv nullClient w cacheKey"
  by (simp add: noDiskEntry_def getDiskCachePathForKey_def nullClient_def newClient_def)

lemma null_request: "\<forall>past. request (httpProvider nullClient) past meth ps = Inr Null"
  by (simp add: nullClient_def newClient_def nullProvider_def)


























section \<open>The claims\<close>

subsection \<open>C1: which block numbers may be cached\<close>

text \<open>
  Claim C1. \<^verbatim>\<open>_canBeCached\<close> returns false when the block number is absent. For a block number
  that is present, with a bound \<^verbatim>\<open>_latestBlockNumberOnCreation - _maxReorg\<close> below \<open>2\<^sup>5\<^sup>3\<close>, it
  returns true exactly when the block number (which is not negative) is at most the bound;
  where \<^verbatim>\<open>toNumber\<close> does not throw, that is below \<open>2\<^sup>5\<^sup>3\<close>, its result is the truth value of
  that comparison, and from \<open>2\<^sup>5\<^sup>3\<close> on it throws. For every block number above the bound, of any
  size, a response of the transport is stored nowhere: the client is returned as it was and
  the files on disk are those from before the call; the caller gets the decoded value, or,
  from \<open>2\<^sup>5\<^sup>3\<close> on, the error of \<^verbatim>\<open>toNumber\<close>.
\<close>

theorem canBeCached_threshold:
  "canBeCached c None = Inr False
   \<and> (0 \<le> n \<and> latestBlockNumberOnCreation c - maxReorg c < 2 ^ 53 \<longrightarrow>
        (canBeCached c (Some n) = Inr True \<longleftrightarrow> n \<le> latestBlockNumberOnCreation c - maxReorg c))
   \<and> (\<bar>n\<bar> < 2 ^ 53 \<longrightarrow>
        canBeCached c (Some n) = Inr (n \<le> latestBlockNumberOnCreation c - maxReorg c))
   \<and> (2 ^ 53 \<le> \<bar>n\<bar> \<longrightarrow>
        canBeCached c (Some n) = Inl (ErrorInstance ''Number can only safely store up to 53 bits''))
   \<and> (latestBlockNumberOnCreation c - maxReorg c < n
        \<and> getFromCache c (getCacheKey E c method params) = Undef
        \<and> getFromDiskCache E c w (getCacheKey E c method params) tType = (Inr Undef, w0)
        \<and> send c w0 method params False = (Inr rawResult, w1)
        \<and> tType rawResult = Inr decodedResult
        \<and> getMaxAffectedBlockNumber decodedResult = Some n
      \<longrightarrow> canBeCached c (Some n) \<noteq> Inr True
          \<and> perform E c w method params tType getMaxAffectedBlockNumber
            = ((if \<bar>n\<bar> < 2 ^ 53 then Inr decodedResult
                else Inl (ErrorInstance ''Number can only safely store up to 53 bits'')),
               c, logEvent (Decode rawResult) w1)
          \<and> files (logEvent (Decode rawResult) w1) = files w)"
proof -
  have absent: "canBeCached c None = Inr False"
    by (simp add: canBeCached_def)
  have small: "\<bar>n\<bar> < 2 ^ 53 \<longrightarrow>
      canBeCached c (Some n) = Inr (n \<le> latestBlockNumberOnCreation c - maxReorg c)"
    by (auto simp: canBeCached_def toNumber_def canBeReorgedOut_def)
  have large: "2 ^ 53 \<le> \<bar>n\<bar> \<longrightarrow>
      canBeCached c (Some n) = Inl (ErrorInstance ''Number can only safely store up to 53 bits'')"
    by (auto simp: canBeCached_def toNumber_def)
  have iff: "0 \<le> n \<and> latestBlockNumberOnCreation c - maxReorg c < 2 ^ 53 \<longrightarrow>
      (canBeCached c (Some n) = Inr True \<longleftrightarrow> n \<le> latestBlockNumberOnCreation c - maxReorg c)"
    by (auto simp: canBeCached_def toNumber_def canBeReorgedOut_def)
  have above: "canBeCached c (Some n) \<noteq> Inr True
      \<and> perform E c w method params tType getMaxAffectedBlockNumber
          = ((if \<bar>n\<bar> < 2 ^ 53 then Inr decodedResult
              else Inl (ErrorInstance ''Number can only safely store up to 53 bits'')),
             c, logEvent (Decode rawResult) w1)
      \<and> files (logEvent (Decode rawResult) w1) = files w"
    if h: "latestBlockNumberOnCreation c - maxReorg c < n"
      "getFromCache c (getCacheKey E c method params) = Undef"
      "getFromDiskCache E c w (getCacheKey E c method params) tType = (Inr Undef, w0)"
      "send c w0 method params False = (Inr rawResult, w1)"
      "tType rawResult = Inr decodedResult"
      "getMaxAffectedBlockNumber decodedResult = Some n"
  proof -
    from h(3,4) have f: "files (logEvent (Decode rawResult) w1) = files w"
      by (auto dest!: getFromDiskCache_frame send_files)
    have no: "canBeCached c (Some n) =
        (if \<bar>n\<bar> < 2 ^ 53 then Inr False
         else Inl (ErrorInstance ''Number can only safely store up to 53 bits''))"
      using h(1) by (auto simp: canBeCached_def toNumber_def canBeReorgedOut_def)
    from h(2,3) have "perform E c w method params tType getMaxAffectedBlockNumber
        = performRemote E c w0 (getCacheKey E c method params) method params tType
            getMaxAffectedBlockNumber"
      by (rule perform_miss)
    with h(4,5,6) no f show ?thesis
      by (simp add: performRemote_def decode_def)
  qed
  from absent small large iff above show ?thesis
    by blast
qed

theorem canBeCached_threshold_witness:
  "latestBlockNumberOnCreation demoClient - maxReorg demoClient < 121
   \<and> getFromCache demoClient (getCacheKey demoEnv demoClient ''eth_getStorageAt'' [JStr ''0x79'']) = Undef
   \<and> getFromDiskCache demoEnv demoClient demoWorld
         (getCacheKey demoEnv demoClient ''eth_getStorageAt'' [JStr ''0x79'']) (asBuffer demoData)
       = (Inr Undef, demoWorld)
   \<and> send demoClient demoWorld ''eth_getStorageAt'' [JStr ''0x79''] False
       = (Inr response1, logEvent (Request ''eth_getStorageAt'' [JStr ''0x79'']) demoWorld)
   \<and> asBuffer demoData response1 = Inr (JBuf (map of_char ''0x67bafa8fb7228f04ffa792''))
   \<and> canBeCached demoClient (Some 120) = Inr True
   \<and> canBeCached demoClient (Some 121) = Inr False
   \<and> perform demoEnv demoClient demoWorld ''eth_getStorageAt'' [JStr ''0x79''] (asBuffer demoData)
         (\<lambda>decodedResult. Some 121)
       = (Inr (JBuf (map of_char ''0x67bafa8fb7228f04ffa792'')), demoClient,
          logEvent (Decode response1)
            (logEvent (Request ''eth_getStorageAt'' [JStr ''0x79'']) demoWorld))
   \<and> canBeCached demoClient (Some (2 ^ 53))
       = Inl (ErrorInstance ''Number can only safely store up to 53 bits'')
   \<and> perform demoEnv demoClient demoWorld ''eth_getStorageAt'' [JStr ''0x79''] (asBuffer demoData)
         (\<lambda>decodedResult. Some (2 ^ 53))
       = (Inl (ErrorInstance ''Number can only safely store up to 53 bits''), demoClient,
          logEvent (Decode response1)
            (logEvent (Request ''eth_getStorageAt'' [JStr ''0x79'']) demoWorld))"
proof -
  have a: "latestBlockNumberOnCreation demoClient - maxReorg demoClient = 120"
    by (simp add: demoClient_def newClient_def)
  have b: "getFromCache demoClient (getCacheKey demoEnv demoClient ''eth_getStorageAt'' [JStr ''0x79'']) = Undef"
    by (rule demo_fresh)
  have d: "getFromDiskCache demoEnv demoClient demoWorld
         (getCacheKey demoEnv demoClient ''eth_getStorageAt'' [JStr ''0x79'']) (asBuffer demoData)
       = (Inr Undef, demoWorld)"
    by (rule demo_no_disk)
  note e = decode_response1
  note T120 = canBeCached_threshold [of demoClient 120 demoEnv "''eth_getStorageAt''"
      "[JStr ''0x79'']" demoWorld "asBuffer demoData" demoWorld response1
      "logEvent (Request ''eth_getStorageAt'' [JStr ''0x79'']) demoWorld"
      "JBuf (map of_char ''0x67bafa8fb7228f04ffa792'')" "\<lambda>decodedResult. Some 120"]
  note T121 = canBeCached_threshold [of demoClient 121 demoEnv "''eth_getStorageAt''"
      "[JStr ''0x79'']" demoWorld "asBuffer demoData" demoWorld response1
      "logEvent (Request ''eth_getStorageAt'' [JStr ''0x79'']) demoWorld"
      "JBuf (map of_char ''0x67bafa8fb7228f04ffa792'')" "\<lambda>decodedResult. Some 121"]
  note Tbig = canBeCached_threshold [of demoClient "2 ^ 53" demoEnv "''eth_getStorageAt''"
      "[JStr ''0x79'']" demoWorld "asBuffer demoData" demoWorld response1
      "logEvent (Request ''eth_getStorageAt'' [JStr ''0x79'']) demoWorld"
      "JBuf (map of_char ''0x67bafa8fb7228f04ffa792'')" "\<lambda>decodedResult. Some (2 ^ 53)"]
  have c120: "canBeCached demoClient (Some 120) = Inr True"
    using T120 a by simp
  have c121: "canBeCached demoClient (Some 121) = Inr False"
    using T121 a by simp
  have p121: "perform demoEnv demoClient demoWorld ''eth_getStorageAt'' [JStr ''0x79''] (asBuffer demoData)
         (\<lambda>decodedResult. Some 121)
       = (Inr (JBuf (map of_char ''0x67bafa8fb7228f04ffa792'')), demoClient,
          logEvent (Decode response1)
            (logEvent (Request ''eth_getStorageAt'' [JStr ''0x79'']) demoWorld))"
    using T121 a b d e demo_send by simp
  have cbig: "canBeCached demoClient (Some (2 ^ 53))
       = Inl (ErrorInstance ''Number can only safely store up to 53 bits'')"
    using Tbig by simp
  have pbig: "perform demoEnv demoClient demoWorld ''eth_getStorageAt'' [JStr ''0x79''] (asBuffer demoData)
         (\<lambda>decodedResult. Some (2 ^ 53))
       = (Inl (ErrorInstance ''Number can only safely store up to 53 bits''), demoClient,
          logEvent (Decode response1)
            (logEvent (Request ''eth_getStorageAt'' [JStr ''0x79'']) demoWorld))"
    using Tbig a b d e demo_send by simp
  from a have a': "latestBlockNumberOnCreation demoClient - maxReorg demoClient < 121"
    by simp
  from a' b d demo_send [of demoWorld "''eth_getStorageAt''" "[JStr ''0x79'']"] e c120 c121 p121 cbig pbig
  show ?thesis
    by blast
qed

subsection \<open>C2: one retry, for one failure of one provider\<close>

text \<open>
  Claim C2. \<^verbatim>\<open>_shouldRetry\<close> holds only on a first attempt, with an address that contains
  \<^verbatim>\<open>infura\<close>, for a failure whose message contains \<^verbatim>\<open>header not found\<close>; for a failure that
  is an \<^verbatim>\<open>Error\<close> these three conditions are also enough. A retry attempt makes one call and
  returns its outcome. A first attempt returns a success, and any failure that does not meet
  the conditions, after one call, unchanged; for a failure that is retried it makes exactly one
  more call and returns the outcome of that call unchanged, whether a success or a failure of
  any kind. No call of \<^verbatim>\<open>_send\<close> reaches the transport more than twice.
\<close>

theorem send_retry_policy:
  "(shouldRetry c isRetryCall err \<longrightarrow>
      \<not> isRetryCall \<and> includesStr (url (httpProvider c)) ''infura'' \<and>
      (\<exists>message. messageProperty err = Some message \<and> includesStr message ''header not found''))
   \<and> (instanceOfError err \<and> \<not> isRetryCall \<and> includesStr (url (httpProvider c)) ''infura'' \<and>
      (\<exists>message. messageProperty err = Some message \<and> includesStr message ''header not found'')
      \<longrightarrow> shouldRetry c isRetryCall err)
   \<and> send c w method params True =
       (request (httpProvider c) (trace w) method params, logEvent (Request method params) w)
   \<and> (request (httpProvider c) (trace w) method params = Inr v \<longrightarrow>
       send c w method params False = (Inr v, logEvent (Request method params) w))
   \<and> (request (httpProvider c) (trace w) method params = Inl err \<and> \<not> shouldRetry c False err \<longrightarrow>
       send c w method params False = (Inl err, logEvent (Request method params) w))
   \<and> (request (httpProvider c) (trace w) method params = Inl err \<and> shouldRetry c False err \<longrightarrow>
       send c w method params False =
         (request (httpProvider c) (trace w @ [Request method params]) method params,
          logEvent (Request method params) (logEvent (Request method params) w)))
   \<and> transportCalls (snd (send c w method params isRetryCall)) \<le> transportCalls w + 2"
proof -
  have bound: "transportCalls (snd (send c w method params isRetryCall)) \<le> transportCalls w + 2"
    by (cases isRetryCall) (auto simp: send_first_call send_retry_call split: sum.splits)
  show ?thesis
    using bound by (auto simp: shouldRetry_iff send_first_call send_retry_call)
qed

theorem send_retry_policy_witness:
  "shouldRetry (infuraClient (ErrorInstance ''header not found'')) False (ErrorInstance ''header not found'')
   \<and> request (httpProvider (infuraClient (ErrorInstance ''header not found''))) (trace demoWorld)
        ''eth_getStorageAt'' [JStr ''0x78'']
       = Inl (ErrorInstance ''header not found'')
   \<and> send (infuraClient (ErrorInstance ''header not found'')) demoWorld ''eth_getStorageAt'' [JStr ''0x78''] False
       = (Inr response1,
          logEvent (Request ''eth_getStorageAt'' [JStr ''0x78''])
            (logEvent (Request ''eth_getStorageAt'' [JStr ''0x78'']) demoWorld))"
proof -
  let ?c = "infuraClient (ErrorInstance ''header not found'')"
  have r: "request (httpProvider ?c) (trace demoWorld) ''eth_getStorageAt'' [JStr ''0x78'']
       = Inl (ErrorInstance ''header not found'')"
    by (simp add: infuraClient_def newClient_def infuraProvider_def demoWorld_def)
  have r2: "request (httpProvider ?c) (trace demoWorld @ [Request ''eth_getStorageAt'' [JStr ''0x78'']])
        ''eth_getStorageAt'' [JStr ''0x78''] = Inr response1"
    by (simp add: infuraClient_def newClient_def infuraProvider_def demoWorld_def)
  have u: "includesStr (url (httpProvider ?c)) ''infura''"
    by (simp add: infuraClient_def newClient_def infuraProvider_def)
  have m: "messageProperty (ErrorInstance ''header not found'') = Some ''header not found''"
    "instanceOfError (ErrorInstance ''header not found'')"
    by (simp_all add: messageProperty_def instanceOfError_def)
  have s: "shouldRetry ?c False (ErrorInstance ''header not found'')"
    using send_retry_policy [of ?c False "ErrorInstance ''header not found''" demoWorld
        "''eth_getStorageAt''" "[JStr ''0x78'']" Undef] u m includes_hnf
    by blast
  show ?thesis
    using send_retry_policy [of ?c False "ErrorInstance ''header not found''" demoWorld
        "''eth_getStorageAt''" "[JStr ''0x78'']" Undef] r r2 s
    by simp
qed

subsection \<open>C10: a rejection that is not an Error\<close>

text \<open>
  Claim C10. A rejection of the transport whose value is not an instance of \<^verbatim>\<open>Error\<close> is
  never retried, whatever the attempt, the address of the provider and the \<^verbatim>\<open>message\<close>
  property of the value: \<^verbatim>\<open>_send\<close> makes one call and returns the rejection unchanged.
\<close>

theorem non_error_rejection_not_retried:
  "\<not> shouldRetry c isRetryCall (NotErrorInstance other)
   \<and> (request (httpProvider c) (trace w) method params = Inl (NotErrorInstance other) \<longrightarrow>
        send c w method params isRetryCall
          = (Inl (NotErrorInstance other), logEvent (Request method params) w)
        \<and> transportCalls (snd (send c w method params isRetryCall)) = transportCalls w + 1)"
  by (cases isRetryCall) (auto simp: shouldRetry_def send_first_call send_retry_call)

theorem non_error_rejection_not_retried_witness:
  "includesStr (url (httpProvider (infuraClient (NotErrorInstance (Some ''header not found''))))) ''infura''
   \<and> messageProperty (NotErrorInstance (Some ''header not found'')) = Some ''header not found''
   \<and> includesStr ''header not found'' ''header not found''
   \<and> request (httpProvider (infuraClient (NotErrorInstance (Some ''header not found'')))) (trace demoWorld)
        ''eth_getStorageAt'' [JStr ''0x78'']
       = Inl (NotErrorInstance (Some ''header not found''))
   \<and> send (infuraClient (NotErrorInstance (Some ''header not found''))) demoWorld
        ''eth_getStorageAt'' [JStr ''0x78''] False
       = (Inl (NotErrorInstance (Some ''header not found'')),
          logEvent (Request ''eth_getStorageAt'' [JStr ''0x78'']) demoWorld)"
proof -
  let ?c = "infuraClient (NotErrorInstance (Some ''header not found''))"
  have r: "request (httpProvider ?c) (trace demoWorld) ''eth_getStorageAt'' [JStr ''0x78'']
       = Inl (NotErrorInstance (Some ''header not found''))"
    by (simp add: infuraClient_def newClient_def infuraProvider_def demoWorld_def)
  have u: "includesStr (url (httpProvider ?c)) ''infura''"
    by (simp add: infuraClient_def newClient_def infuraProvider_def)
  have m: "messageProperty (NotErrorInstance (Some ''header not found'')) = Some ''header not found''"
    by (simp add: messageProperty_def)
  show ?thesis
    using non_error_rejection_not_retried [of ?c False "Some ''header not found''" demoWorld
        "''eth_getStorageAt''" "[JStr ''0x78'']"] r u m includes_hnf
    by simp
qed

subsection \<open>C6: a decoding failure\<close>

text \<open>
  Claim C6. When the decoder throws on the raw result of the transport, \<^verbatim>\<open>_perform\<close> throws
  the same error, the client is returned as it was (nothing is added to the in-memory cache),
  and the files on disk are those from before the call.
\<close>

theorem decode_failure_writes_nothing:
  assumes "getFromCache c (getCacheKey E c method params) = Undef"
    and "getFromDiskCache E c w (getCacheKey E c method params) tType = (Inr Undef, w0)"
    and "send c w0 method params False = (Inr rawResult, w1)"
    and "tType rawResult = Inl e"
  shows "perform E c w method params tType getMaxAffectedBlockNumber
           = (Inl e, c, logEvent (Decode rawResult) w1)
         \<and> files (logEvent (Decode rawResult) w1) = files w"
proof -
  from assms(2) have "files w0 = files w"
    by (auto dest: getFromDiskCache_frame)
  moreover from assms(3) have "files w1 = files w0"
    by (auto dest: send_files)
  ultimately show ?thesis
    using assms by (simp add: perform_miss performRemote_def decode_def)
qed

theorem decode_failure_writes_nothing_witness:
  "getFromCache nullClient (getCacheKey demoEnv nullClient ''eth_getStorageAt'' [JStr ''0x78'']) = Undef
   \<and> getFromDiskCache demoEnv nullClient demoWorld
        (getCacheKey demoEnv nullClient ''eth_getStorageAt'' [JStr ''0x78'']) (asBuffer demoData)
       = (Inr Undef, demoWorld)
   \<and> send nullClient demoWorld ''eth_getStorageAt'' [JStr ''0x78''] False
       = (Inr Null, logEvent (Request ''eth_getStorageAt'' [JStr ''0x78'']) demoWorld)
   \<and> asBuffer demoData Null = Inl (ErrorInstance ''Invalid value'')
   \<and> perform demoEnv nullClient demoWorld ''eth_getStorageAt'' [JStr ''0x78''] (asBuffer demoData)
        (\<lambda>decodedResult. Some 120)
       = (Inl (ErrorInstance ''Invalid value''), nullClient,
          logEvent (Decode Null) (logEvent (Request ''eth_getStorageAt'' [JStr ''0x78'']) demoWorld))
   \<and> files (logEvent (Decode Null) (logEvent (Request ''eth_getStorageAt'' [JStr ''0x78'']) demoWorld))
       = Map.empty"
proof -
  have a: "getFromCache nullClient (getCacheKey demoEnv nullClient ''eth_getStorageAt'' [JStr ''0x78'']) = Undef"
    by (simp add: getFromCache_def nullClient_def newClient_def)
  have b: "getFromDiskCache demoEnv nullClient demoWorld
        (getCacheKey demoEnv nullClient ''eth_getStorageAt'' [JStr ''0x78'']) (asBuffer demoData)
       = (Inr Undef, demoWorld)"
    by (simp add: getFromDiskCache_def getRawFromDiskCache_def getDiskCachePathForKey_def
          nullClient_def newClient_def)
  have d: "asBuffer demoData Null = Inl (ErrorInstance ''Invalid value'')"
    by (simp add: asBuffer_def demoData_def)
  have f: "files demoWorld = Map.empty"
    by (simp add: demoWorld_def)
  show ?thesis
    using decode_failure_writes_nothing [OF a b null_send d, of "\<lambda>decodedResult. Some 120"] a b d f null_send
    by simp
qed

subsection \<open>C7: a failure to read the cache on disk\<close>

text \<open>
  Claim C7. When the key is not in memory and reading the file of the key fails, with whatever
  error, \<^verbatim>\<open>_getRawFromDiskCache\<close> returns \<^verbatim>\<open>undefined\<close> and \<^verbatim>\<open>_perform\<close> goes on as on a
  miss: its outcome is that of asking the transport, the next thing it does after the read is
  the request, and the error of the read appears nowhere in it.
\<close>

theorem disk_read_failure_is_a_miss:
  assumes "getFromCache c (getCacheKey E c method params) = Undef"
    and "getDiskCachePathForKey E c (getCacheKey E c method params) = Inr p"
    and "fst (readJSON w p) = Inl err"
  shows "getRawFromDiskCache E c w (getCacheKey E c method params) = (Undef, logEvent (ReadJSON p) w)
         \<and> perform E c w method params tType getMaxAffectedBlockNumber
             = performRemote E c (logEvent (ReadJSON p) w) (getCacheKey E c method params)
                 method params tType getMaxAffectedBlockNumber
         \<and> (\<exists>rest. trace (snd (snd (perform E c w method params tType getMaxAffectedBlockNumber)))
               = trace w @ ReadJSON p # Request method params # rest)"
proof -
  obtain w1 where r: "readJSON w p = (Inl err, w1)"
    using assms(3) by (cases "readJSON w p") auto
  then have w1: "w1 = logEvent (ReadJSON p) w"
    by (rule readJSON_world)
  have raw: "getRawFromDiskCache E c w (getCacheKey E c method params) = (Undef, logEvent (ReadJSON p) w)"
    using assms(2) r w1 by (simp add: getRawFromDiskCache_def)
  then have disk: "getFromDiskCache E c w (getCacheKey E c method params) tType
      = (Inr Undef, logEvent (ReadJSON p) w)"
    by (simp add: getFromDiskCache_def)
  have eq: "perform E c w method params tType getMaxAffectedBlockNumber
             = performRemote E c (logEvent (ReadJSON p) w) (getCacheKey E c method params)
                 method params tType getMaxAffectedBlockNumber"
    using assms(1) disk by (rule perform_miss)
  from performRemote_trace [of E c "logEvent (ReadJSON p) w" "getCacheKey E c method params"
      "method" params tType getMaxAffectedBlockNumber]
  obtain rest where "trace (snd (snd (performRemote E c (logEvent (ReadJSON p) w)
      (getCacheKey E c method params) method params tType getMaxAffectedBlockNumber)))
      = trace w @ ReadJSON p # Request method params # rest"
    by auto
  with raw eq show ?thesis by simp
qed


theorem disk_read_failure_is_a_miss_witness:
  "getFromCache diskClient (getCacheKey demoEnv diskClient ''eth_getStorageAt'' [JStr ''0x78'']) = Undef
   \<and> getDiskCachePathForKey demoEnv diskClient
        (getCacheKey demoEnv diskClient ''eth_getStorageAt'' [JStr ''0x78'']) = Inr demoPath
   \<and> files faultyWorld demoPath = Some (JStr ''0x01'')
   \<and> fst (readJSON faultyWorld demoPath) = Inl (ErrorInstance ''EACCES'')
   \<and> perform demoEnv diskClient faultyWorld ''eth_getStorageAt'' [JStr ''0x78''] (asBuffer demoData)
        (\<lambda>decodedResult. Some 121)
       = (Inr (JBuf (map of_char ''0x67bafa8fb7228f04ffa792'')), diskClient,
          logEvent (Decode response1)
            (logEvent (Request ''eth_getStorageAt'' [JStr ''0x78''])
               (logEvent (ReadJSON demoPath) faultyWorld)))"
proof -
  have r: "fst (readJSON faultyWorld demoPath) = Inl (ErrorInstance ''EACCES'')"
    by (simp add: readJSON_def faultyWorld_def)
  have f: "files faultyWorld demoPath = Some (JStr ''0x01'')"
    by (simp add: faultyWorld_def)
  have n: "canBeCached diskClient (Some 121) = Inr False"
    by (simp add: canBeCached_def toNumber_def canBeReorgedOut_def diskClient_def newClient_def)
  have "performRemote demoEnv diskClient (logEvent (ReadJSON demoPath) faultyWorld)
          (getCacheKey demoEnv diskClient ''eth_getStorageAt'' [JStr ''0x78''])
          ''eth_getStorageAt'' [JStr ''0x78''] (asBuffer demoData) (\<lambda>decodedResult. Some 121)
       = (Inr (JBuf (map of_char ''0x67bafa8fb7228f04ffa792'')), diskClient,
          logEvent (Decode response1)
            (logEvent (Request ''eth_getStorageAt'' [JStr ''0x78''])
               (logEvent (ReadJSON demoPath) faultyWorld)))"
    using n by (simp add: performRemote_def disk_send decode_def decode_response1)
  then show ?thesis
    using disk_read_failure_is_a_miss [OF disk_fresh disk_path r, of "asBuffer demoData"
        "\<lambda>decodedResult. Some 121"] disk_fresh disk_path r f
    by simp
qed

subsection \<open>C9: what is stored, and where\<close>

text \<open>
  Claim C9. For a response of the transport that decodes: when \<^verbatim>\<open>_canBeCached\<close> accepts its
  block number, the in-memory cache gets the decoded value under the key; without a
  \<^verbatim>\<open>forkCachePath\<close> the disk is left alone, and with one the raw payload is written to the
  file of the same key (the call returns the decoded value exactly when that write went
  through, which it does when no operation of the file system fails, and a failed write
  leaves the disk as it was). When \<^verbatim>\<open>_canBeCached\<close> rejects, the value is returned and neither
  the in-memory cache nor the disk changes. When \<^verbatim>\<open>_canBeCached\<close> throws (a block number of
  more than 53 bits), the call throws the same error and again neither changes.
\<close>

theorem eligible_response_is_stored:
  assumes "getFromCache c (getCacheKey E c method params) = Undef"
    and "getFromDiskCache E c w (getCacheKey E c method params) tType = (Inr Undef, w0)"
    and "send c w0 method params False = (Inr rawResult, w1)"
    and "tType rawResult = Inr decodedResult"
    and "perform E c w method params tType getMaxAffectedBlockNumber = (r, c', w')"
  shows "(canBeCached c (getMaxAffectedBlockNumber decodedResult) = Inr True \<longrightarrow>
            cache c' = (cache c)(getCacheKey E c method params \<mapsto> decodedResult)
            \<and> (forkCachePath c = None \<longrightarrow> r = Inr decodedResult \<and> files w' = files w)
            \<and> (\<forall>p. getDiskCachePathForKey E c (getCacheKey E c method params) = Inr p \<longrightarrow>
                  files w' = (if r = Inr decodedResult then (files w)(p \<mapsto> rawResult) else files w)
                  \<and> ((\<forall>past ev. ioFault w past ev = None) \<longrightarrow> r = Inr decodedResult)))
         \<and> (canBeCached c (getMaxAffectedBlockNumber decodedResult) = Inr False \<longrightarrow>
            r = Inr decodedResult \<and> cache c' = cache c \<and> files w' = files w)
         \<and> (\<forall>e. canBeCached c (getMaxAffectedBlockNumber decodedResult) = Inl e \<longrightarrow>
            r = Inl e \<and> cache c' = cache c \<and> files w' = files w)"
proof -
  let ?key = "getCacheKey E c method params"
  let ?w2 = "logEvent (Decode rawResult) w1"
  let ?c1 = "storeInCache c ?key decodedResult"
  have fw: "files ?w2 = files w" "ioFault ?w2 = ioFault w"
    using assms(2,3) by (auto dest!: getFromDiskCache_frame send_files)
  have remote: "performRemote E c w0 ?key method params tType getMaxAffectedBlockNumber = (r, c', w')"
    using assms(1,2,5) by (simp add: perform_miss)
  show ?thesis
  proof (cases "canBeCached c (getMaxAffectedBlockNumber decodedResult) = Inr True")
    case False
    with remote assms(3,4) fw show ?thesis
      by (auto simp: performRemote_def decode_def Let_def split: sum.splits)
  next
    case True
    show ?thesis
    proof (cases "forkCachePath c")
      case None
      with True remote assms(3,4) fw show ?thesis
        by (auto simp: performRemote_def decode_def Let_def isCacheToDiskEnabled_def
            storeInCache_def getDiskCachePathForKey_def)
    next
      case (Some dir)
      obtain res c2 w3 where st: "storeInDiskCache E ?c1 ?w2 ?key rawResult = (res, c2, w3)"
        by (cases "storeInDiskCache E ?c1 ?w2 ?key rawResult") auto
      have path: "getDiskCachePathForKey E ?c1 ?key = getDiskCachePathForKey E c ?key"
        by (simp add: getDiskCachePathForKey_def storeInCache_def split: option.splits)
      have out: "r = (case res of Inl e \<Rightarrow> Inl e | Inr u \<Rightarrow> Inr decodedResult)" "c' = c2" "w' = w3"
        using True Some remote assms(3,4) st
        by (auto simp: performRemote_def decode_def Let_def isCacheToDiskEnabled_def
            storeInCache_def split: sum.splits)
      have cache: "cache c2 = (cache c)(?key \<mapsto> decodedResult)"
        using storeInDiskCache_client [OF st] by (auto simp: storeInCache_def)
      have nofault: "(\<forall>past ev. ioFault w past ev = None) \<longrightarrow> r = Inr decodedResult"
        using st fw Some out(1)
        by (auto simp: storeInDiskCache_def getDiskCachePathForKey_def storeInCache_def Let_def
            ensureDir_def writeJSON_def split: if_splits)
      have stored: "\<And>p. getDiskCachePathForKey E c ?key = Inr p \<Longrightarrow>
          files w' = (if r = Inr decodedResult then (files w)(p \<mapsto> rawResult) else files w)"
        using storeInDiskCache_files [OF st] path fw out by (cases res) auto
      from True Some cache out(2) nofault stored show ?thesis
        by simp
    qed
  qed
qed


theorem eligible_response_is_stored_witness:
  "canBeCached diskClient (Some 120) = Inr True
   \<and> getFromDiskCache demoEnv diskClient demoWorld
        (getCacheKey demoEnv diskClient ''eth_getStorageAt'' [JStr ''0x78'']) (asBuffer demoData)
       = (Inr Undef, logEvent (ReadJSON demoPath) demoWorld)
   \<and> getDiskCachePathForKey demoEnv diskClient
        (getCacheKey demoEnv diskClient ''eth_getStorageAt'' [JStr ''0x78'']) = Inr demoPath
   \<and> (\<forall>past ev. ioFault demoWorld past ev = None)
   \<and> fst (perform demoEnv diskClient demoWorld ''eth_getStorageAt'' [JStr ''0x78'']
          (asBuffer demoData) (\<lambda>decodedResult. Some 120))
       = Inr (JBuf (map of_char ''0x67bafa8fb7228f04ffa792''))
   \<and> cache (fst (snd (perform demoEnv diskClient demoWorld ''eth_getStorageAt'' [JStr ''0x78'']
          (asBuffer demoData) (\<lambda>decodedResult. Some 120))))
       = [getCacheKey demoEnv diskClient ''eth_getStorageAt'' [JStr ''0x78'']
            \<mapsto> JBuf (map of_char ''0x67bafa8fb7228f04ffa792'')]
   \<and> files (snd (snd (perform demoEnv diskClient demoWorld ''eth_getStorageAt'' [JStr ''0x78'']
          (asBuffer demoData) (\<lambda>decodedResult. Some 120))))
       = [demoPath \<mapsto> response1]"
proof -
  let ?p = "perform demoEnv diskClient demoWorld ''eth_getStorageAt'' [JStr ''0x78'']
          (asBuffer demoData) (\<lambda>decodedResult. Some 120)"
  have e: "canBeCached diskClient (Some 120) = Inr True"
    by (simp add: canBeCached_def toNumber_def canBeReorgedOut_def diskClient_def newClient_def)
  have d: "getFromDiskCache demoEnv diskClient demoWorld
        (getCacheKey demoEnv diskClient ''eth_getStorageAt'' [JStr ''0x78'']) (asBuffer demoData)
       = (Inr Undef, logEvent (ReadJSON demoPath) demoWorld)"
    by (simp add: getFromDiskCache_def getRawFromDiskCache_def disk_path readJSON_def demoWorld_def)
  have n: "\<forall>past ev. ioFault demoWorld past ev = None"
    by (simp add: demoWorld_def)
  have p: "?p = (fst ?p, fst (snd ?p), snd (snd ?p))"
    by simp
  have c0: "cache diskClient = Map.empty" "files demoWorld = Map.empty"
    by (simp_all add: diskClient_def newClient_def demoWorld_def)
  show ?thesis
    using eligible_response_is_stored [OF disk_fresh d disk_send decode_response1 p]
      e d disk_path n c0
    by simp
qed

subsection \<open>C3: blocks 121 and 120 of a client created at 123 with depth 3\<close>

text \<open>
  Claim C3. For a client constructed with latest block 123 and reorganisation depth 3:
  \<^verbatim>\<open>getStorageAt\<close> for block 121, where no file on disk has the key, never changes the client or
  the disk, and after any number of such calls the next one calls the transport again;
  a call of \<^verbatim>\<open>getStorageAt\<close> for block 120 that succeeds leaves its value in the in-memory
  cache, and the same call made again returns that value and leaves the world as it is: the
  trace does not grow, so there is no call of the transport, no decoding and no read of the disk.
\<close>

theorem reorg_window_exclusion:
  assumes "c = newClient provider nid 123 3 path"
  shows "(noDiskEntry E c w
            (getCacheKey E c ''eth_getStorageAt''
               [JStr (bufferToHex E address), JStr (bufferToHex E position),
                JStr (numberToRpcQuantity E 121)]) \<longrightarrow>
          (case callTimes n (\<lambda>c w. getStorageAt E c w address position 121) c w of
             (cn, wn) \<Rightarrow>
               cn = c \<and> files wn = files w \<and>
               transportCalls wn < transportCalls (snd (snd (getStorageAt E cn wn address position 121)))))
       \<and> (getStorageAt E c w address position 120 = (Inr v, c1, w1) \<longrightarrow>
            getFromCache c1
              (getCacheKey E c1 ''eth_getStorageAt''
                 [JStr (bufferToHex E address), JStr (bufferToHex E position),
                  JStr (numberToRpcQuantity E 120)]) = v
            \<and> getStorageAt E c1 w1 address position 120 = (Inr v, c1, w1))"
proof (intro conjI impI)
  let ?ps = "[JStr (bufferToHex E address), JStr (bufferToHex E position),
                JStr (numberToRpcQuantity E 121)]"
  let ?key = "getCacheKey E c ''eth_getStorageAt'' ?ps"
  let ?op = "\<lambda>c w. perform E c w ''eth_getStorageAt'' ?ps (asBuffer (rpcData E)) (\<lambda>decodedResult. Some 121)"
  assume nd: "noDiskEntry E c w ?key"
  have fresh: "getFromCache c ?key = Undef"
    using assms by (simp add: getFromCache_def newClient_def)
  have rej: "\<forall>raw v. asBuffer (rpcData E) raw = Inr v \<longrightarrow> canBeCached c (Some 121) \<noteq> Inr True"
    using assms by (simp add: canBeCached_def toNumber_def canBeReorgedOut_def newClient_def)
  have op: "(\<lambda>c w. getStorageAt E c w address position 121) = ?op"
    by (simp add: getStorageAt_def)
  obtain cn wn where ct: "callTimes n ?op c w = (cn, wn)"
    by (cases "callTimes n ?op c w")
  from callTimes_rejected [OF fresh rej nd ct]
  have inv: "cn = c" "files wn = files w" by auto
  then have nd': "noDiskEntry E c wn ?key"
    using nd by (simp add: noDiskEntry_def split: sum.splits)
  obtain r c' w' where p: "?op c wn = (r, c', w')"
    by (cases "?op c wn") auto
  from perform_rejected [OF fresh nd' rej p] have "transportCalls wn < transportCalls w'"
    by simp
  with inv ct p show "case callTimes n (\<lambda>c w. getStorageAt E c w address position 121) c w of
             (cn, wn) \<Rightarrow>
               cn = c \<and> files wn = files w \<and>
               transportCalls wn < transportCalls (snd (snd (getStorageAt E cn wn address position 121)))"
    by (simp add: getStorageAt_def)
next
  let ?ps = "[JStr (bufferToHex E address), JStr (bufferToHex E position),
                JStr (numberToRpcQuantity E 120)]"
  assume "getStorageAt E c w address position 120 = (Inr v, c1, w1)"
  then have p: "perform E c w ''eth_getStorageAt'' ?ps (asBuffer (rpcData E))
      (\<lambda>decodedResult. Some 120) = (Inr v, c1, w1)"
    by (simp add: getStorageAt_def)
  have v: "v \<noteq> Undef"
    using perform_defined [OF p] asBuffer_defined by blast
  have ok: "canBeCached c (Some 120) = Inr True"
    using assms by (simp add: canBeCached_def toNumber_def canBeReorgedOut_def newClient_def)
  from perform_caches [OF p v ok]
  show hit: "getFromCache c1 (getCacheKey E c1 ''eth_getStorageAt'' ?ps) = v" .
  with v show "getStorageAt E c1 w1 address position 120 = (Inr v, c1, w1)"
    by (simp add: getStorageAt_def perform_hit)
qed


theorem reorg_window_exclusion_witness:
  "demoClient = newClient fakeProvider 1 123 3 None
   \<and> noDiskEntry demoEnv demoClient demoWorld
        (getCacheKey demoEnv demoClient ''eth_getStorageAt''
           [JStr (bufferToHex demoEnv [1]), JStr (bufferToHex demoEnv [2]),
            JStr (numberToRpcQuantity demoEnv 121)])
   \<and> fst twice121 = demoClient
   \<and> files (snd twice121) = files demoWorld
   \<and> transportCalls (snd twice121) = 2
   \<and> transportCalls (snd twice121)
       < transportCalls (snd (snd (getStorageAt demoEnv (fst twice121) (snd twice121) [1] [2] 121)))
   \<and> fst first120 = Inr (JBuf (map of_char ''0x67bafa8fb7228f04ffa792''))
   \<and> transportCalls (snd (snd first120)) = 1
   \<and> getStorageAt demoEnv (fst (snd first120)) (snd (snd first120)) [1] [2] 120 = first120"
proof -
  have t: "transportCalls (snd twice121) = 2"
    by (simp add: twice121_def eval_nat_numeral demo_121 transportCalls_def demoWorld_def)
  have o: "transportCalls (snd (snd first120)) = 1"
    by (simp add: demo_120 transportCalls_def demoWorld_def)
  have r: "fst first120 = Inr (JBuf (map of_char ''0x67bafa8fb7228f04ffa792''))"
    by (simp add: demo_120)
  have f: "getStorageAt demoEnv demoClient demoWorld [1] [2] 120
      = (Inr (JBuf (map of_char ''0x67bafa8fb7228f04ffa792'')), fst (snd first120), snd (snd first120))"
    using r by (simp add: first120_def prod_eq_iff)
  note T = reorg_window_exclusion [OF demoClient_def, of demoEnv demoWorld "[1]" "[2]" 2
        "JBuf (map of_char ''0x67bafa8fb7228f04ffa792'')" "fst (snd first120)" "snd (snd first120)"]
  have A: "case twice121 of (cn, wn) \<Rightarrow>
      cn = demoClient \<and> files wn = files demoWorld \<and>
      transportCalls wn < transportCalls (snd (snd (getStorageAt demoEnv cn wn [1] [2] 121)))"
    unfolding twice121_def by (rule T [THEN conjunct1, THEN mp, OF demo_noDiskEntry])
  have "getStorageAt demoEnv (fst (snd first120)) (snd (snd first120)) [1] [2] 120
      = (Inr (JBuf (map of_char ''0x67bafa8fb7228f04ffa792'')), fst (snd first120), snd (snd first120))"
    by (rule T [THEN conjunct2, THEN mp, OF f, THEN conjunct2])
  then have B: "getStorageAt demoEnv (fst (snd first120)) (snd (snd first120)) [1] [2] 120 = first120"
    using r by (simp add: prod_eq_iff)
  have C: "demoClient = newClient fakeProvider 1 123 3 None"
    by (rule demoClient_def)
  from A have A': "fst twice121 = demoClient" "files (snd twice121) = files demoWorld"
    "transportCalls (snd twice121)
       < transportCalls (snd (snd (getStorageAt demoEnv (fst twice121) (snd twice121) [1] [2] 121)))"
    by (auto simp: case_prod_beta)
  from A' B C t o r demo_noDiskEntry show ?thesis
    by blast
qed

subsection \<open>C8: a lookup of something that does not exist\<close>

text \<open>
  Claim C8. For \<^verbatim>\<open>getBlockByHash\<close>, \<^verbatim>\<open>getTransactionByHash\<close> and \<^verbatim>\<open>getTransactionReceipt\<close>, when
  the key is neither in memory nor on disk and the remote node answers \<^verbatim>\<open>null\<close> for the
  lookup: the block number taken from \<^verbatim>\<open>null\<close> is absent and \<^verbatim>\<open>_canBeCached\<close> is false on it;
  after any number of such lookups the client and the disk are as they were and the transport
  was called once per lookup; and the next lookup again returns \<^verbatim>\<open>null\<close> (not an error),
  changes neither the client nor the disk, and calls the transport once more.
\<close>

theorem not_found_is_null_and_never_cached:
  assumes "lookupRequest E l = (meth, ps)"
    and "getFromCache c (getCacheKey E c meth ps) = Undef"
    and "noDiskEntry E c w (getCacheKey E c meth ps)"
    and "\<forall>past. request (httpProvider c) past meth ps = Inr Null"
  shows "optionalField ''number'' Null = None \<and> optionalField ''blockNumber'' Null = None
         \<and> canBeCached c None = Inr False
         \<and> (case callTimes n (runLookup E l) c w of
              (cn, wn) \<Rightarrow>
                cn = c \<and> files wn = files w \<and> transportCalls wn = transportCalls w + n \<and>
                (case runLookup E l cn wn of
                   (r, c', w') \<Rightarrow>
                     r = Inr Null \<and> c' = c \<and> files w' = files w \<and>
                     transportCalls w' = transportCalls wn + 1))"
proof -
  from runLookup_perform [of E l] assms(1) obtain codec field where
    run: "runLookup E l = (\<lambda>c w. perform E c w meth ps (nullable codec) (optionalField field))"
    by auto
  obtain cn wn where ct: "callTimes n (runLookup E l) c w = (cn, wn)"
    by (cases "callTimes n (runLookup E l) c w")
  from callTimes_absent [OF assms(2,4,3)] ct run
  have inv: "cn = c" "files wn = files w" "transportCalls wn = transportCalls w + n"
    by auto
  then have nd: "noDiskEntry E c wn (getCacheKey E c meth ps)"
    using assms(3) by (simp add: noDiskEntry_def split: sum.splits)
  obtain r c' w' where p: "runLookup E l c wn = (r, c', w')"
    by (cases "runLookup E l c wn") auto
  with run have "perform E c wn meth ps (nullable codec) (optionalField field) = (r, c', w')"
    by simp
  from perform_absent [OF assms(2) nd assms(4) this] inv ct p
  show ?thesis
    by (simp add: optionalField_Null canBeCached_def)
qed

theorem not_found_is_null_and_never_cached_witness:
  "lookupRequest demoEnv (TransactionByHash [1])
     = (''eth_getTransactionByHash'', [JStr (bufferToHex demoEnv [1])])
   \<and> getFromCache nullClient
        (getCacheKey demoEnv nullClient ''eth_getTransactionByHash'' [JStr (bufferToHex demoEnv [1])])
       = Undef
   \<and> noDiskEntry demoEnv nullClient demoWorld
        (getCacheKey demoEnv nullClient ''eth_getTransactionByHash'' [JStr (bufferToHex demoEnv [1])])
   \<and> (\<forall>past. request (httpProvider nullClient) past ''eth_getTransactionByHash''
                 [JStr (bufferToHex demoEnv [1])] = Inr Null)
   \<and> fst twiceNotFound = nullClient
   \<and> files (snd twiceNotFound) = files demoWorld
   \<and> transportCalls (snd twiceNotFound) = transportCalls demoWorld + 2
   \<and> fst (getTransactionByHash demoEnv (fst twiceNotFound) (snd twiceNotFound) [1]) = Inr Null
   \<and> transportCalls (snd (snd (getTransactionByHash demoEnv (fst twiceNotFound) (snd twiceNotFound) [1])))
       = transportCalls (snd twiceNotFound) + 1"
proof -
  have l: "lookupRequest demoEnv (TransactionByHash [1])
     = (''eth_getTransactionByHash'', [JStr (bufferToHex demoEnv [1])])"
    by simp
  note T = not_found_is_null_and_never_cached [OF l null_fresh null_noDiskEntry null_request,
      of demoWorld 2]
  have "case twiceNotFound of
              (cn, wn) \<Rightarrow>
                cn = nullClient \<and> files wn = files demoWorld \<and>
                transportCalls wn = transportCalls demoWorld + 2 \<and>
                (case runLookup demoEnv (TransactionByHash [1]) cn wn of
                   (r, c', w') \<Rightarrow>
                     r = Inr Null \<and> c' = nullClient \<and> files w' = files demoWorld \<and>
                     transportCalls w' = transportCalls wn + 1)"
    unfolding twiceNotFound_def by (rule T [THEN conjunct2, THEN conjunct2, THEN conjunct2])
  then have "fst twiceNotFound = nullClient"
    "files (snd twiceNotFound) = files demoWorld"
    "transportCalls (snd twiceNotFound) = transportCalls demoWorld + 2"
    "fst (getTransactionByHash demoEnv (fst twiceNotFound) (snd twiceNotFound) [1]) = Inr Null"
    "transportCalls (snd (snd (getTransactionByHash demoEnv (fst twiceNotFound) (snd twiceNotFound) [1])))
       = transportCalls (snd twiceNotFound) + 1"
    by (auto simp: case_prod_beta)
  with l null_fresh null_noDiskEntry null_request show ?thesis
    by blast
qed

subsection \<open>C4: what a cache key depends on\<close>



subsection \<open>C5: a batch is cached under one key\<close>



end
